theory Spec2Isabelle
  imports Complex_Main "HOL-Library.Multiset"
begin

section \<open>Data model of dqn2.py\<close>

text \<open>
  A tensor is the flat list of its elements in storage order; elements are real numbers
  (rounding, signed zeros and the non-finite values of machine floats are outside the
  model). A batch of row tensors is a list of rows.
\<close>

type_synonym tensor = "real list"

datatype error =
  ValueError | TypeError | RuntimeError | KeyError | IndexError | ZeroDivisionError | OverflowError

text \<open>
  \<^verbatim>\<open>Transition = namedtuple('Transition', ('state', 'action', 'next_state', 'reward'))\<close>;
  \<^verbatim>\<open>next_state\<close> is \<^verbatim>\<open>None\<close> for the step on which the episode ended.
\<close>

record Transition =
  state :: tensor
  action :: int
  next_state :: "tensor option"
  reward :: real

section \<open>ReplayMemory\<close>

text \<open>
  \<^verbatim>\<open>self.memory = deque([], maxlen=capacity)\<close>: the deque is the list of its elements, oldest
  first, with its bound. A negative bound is refused by the deque's constructor.
\<close>

record 'a ReplayMemory =
  maxlen :: nat
  memory :: "'a list"

definition ReplayMemory_init :: "int \<Rightarrow> error + 'a ReplayMemory" where
  "ReplayMemory_init capacity =
     (if capacity < 0 then Inl ValueError
      else Inr \<lparr> maxlen = nat capacity, memory = [] \<rparr>)"

text \<open>
  \<^verbatim>\<open>self.memory.append(Transition(*args))\<close>: a bounded deque appends on the right and, when
  that makes it longer than its bound, drops the element on the left.
\<close>

definition push :: "'a ReplayMemory \<Rightarrow> 'a \<Rightarrow> 'a ReplayMemory" where
  "push m t =
     (let appended = memory m @ [t]
      in m \<lparr> memory := (if maxlen m < length appended then tl appended else appended) \<rparr>)"

fun push_all :: "'a ReplayMemory \<Rightarrow> 'a list \<Rightarrow> 'a ReplayMemory" where
  "push_all m [] = m"
| "push_all m (t # ts) = push_all (push m t) ts"

definition len :: "'a ReplayMemory \<Rightarrow> int" where
  "len m = int (length (memory m))"

text \<open>
  \<^verbatim>\<open>random.sample(self.memory, batch_size)\<close> is the standard library's. It refuses a sample
  size that is negative or larger than the population, and otherwise selects \<open>k\<close> positions
  of the population, none of them twice. For a population that is small against \<open>k\<close> it
  does so on a copy \<^verbatim>\<open>pool\<close> of the population (for a larger one it draws positions and
  redraws those already taken, which selects the same lists of positions):
  \<^verbatim>\<open>
      for i in range(k):
          j = randbelow(n - i)
          result[i] = pool[j]
          pool[j] = pool[n - i - 1]
  \<close>
  The random draws are an input of the model: \<open>rnd i\<close> is the raw number behind the
  \<open>i\<close>-th call of \<^verbatim>\<open>randbelow\<close>, which reduces it below its argument. The first argument of
  \<open>sample_loop\<close> counts the iterations still to run.
\<close>

definition randbelow :: "nat \<Rightarrow> nat \<Rightarrow> nat" where
  "randbelow raw n = raw mod n"

fun sample_loop :: "nat \<Rightarrow> nat \<Rightarrow> nat \<Rightarrow> (nat \<Rightarrow> nat) \<Rightarrow> 'a list \<Rightarrow> 'a list" where
  "sample_loop 0 n i rnd pool = []"
| "sample_loop (Suc r) n i rnd pool =
     (let j = randbelow (rnd i) (n - i)
      in pool ! j # sample_loop r n (Suc i) rnd (pool[j := pool ! (n - i - 1)]))"

definition random_sample :: "'a list \<Rightarrow> int \<Rightarrow> (nat \<Rightarrow> nat) \<Rightarrow> error + 'a list" where
  "random_sample population k rnd =
     (let n = length population
      in if \<not> (0 \<le> k \<and> k \<le> int n) then Inl ValueError
         else Inr (sample_loop (nat k) n 0 rnd population))"

text \<open>
  \<^verbatim>\<open>ReplayMemory.sample\<close> returns what \<^verbatim>\<open>random.sample\<close> returns or raises; the buffer after
  the call is the second component.
\<close>

definition sample :: "'a ReplayMemory \<Rightarrow> int \<Rightarrow> (nat \<Rightarrow> nat) \<Rightarrow> (error + 'a list) \<times> 'a ReplayMemory" where
  "sample m batch_size rnd = (random_sample (memory m) batch_size rnd, m)"


section \<open>Value estimator\<close>

text \<open>
  \<^verbatim>\<open>torch.nn.Linear(in_features, out_features)\<close>: \<open>weight\<close> holds \<open>out_features\<close> rows of
  \<open>in_features\<close> elements, row after row, and \<open>bias\<close> one element per output. The initial
  values are drawn at random by the constructor: \<open>init\<close> supplies them. A negative width
  is refused.
\<close>

record Linear =
  in_features :: nat
  out_features :: nat
  weight :: tensor
  bias :: tensor

definition Linear_init :: "(nat \<Rightarrow> real) \<Rightarrow> int \<Rightarrow> int \<Rightarrow> error + Linear" where
  "Linear_init init n_in n_out =
     (if n_in < 0 \<or> n_out < 0 then Inl RuntimeError
      else Inr \<lparr> in_features = nat n_in, out_features = nat n_out,
                 weight = map init [0 ..< nat n_out * nat n_in],
                 bias = map init [nat n_out * nat n_in ..< nat n_out * nat n_in + nat n_out] \<rparr>)"

definition dot :: "tensor \<Rightarrow> tensor \<Rightarrow> real" where
  "dot xs ys = sum_list (map2 (*) xs ys)"

definition weight_row :: "Linear \<Rightarrow> nat \<Rightarrow> tensor" where
  "weight_row l i = take (in_features l) (drop (i * in_features l) (weight l))"

text \<open>One input row through a linear layer; a row of the wrong width is a shape error.\<close>

definition Linear_forward :: "Linear \<Rightarrow> tensor \<Rightarrow> error + tensor" where
  "Linear_forward l x =
     (if length x \<noteq> in_features l then Inl RuntimeError
      else Inr (map (\<lambda>i. dot (weight_row l i) x + bias l ! i) [0 ..< out_features l]))"

definition relu :: "tensor \<Rightarrow> tensor" where
  "relu x = map (max 0) x"

text \<open>
  The numeric substrate is outside the repository: automatic differentiation
  (\<^verbatim>\<open>loss.backward()\<close>) and the AdamW optimizer are taken as functions. \<open>backward\<close> gives the
  gradient of the SmoothL1 loss at a named parameter element, from the parameters, the
  batch of states, the actions taken and the regression targets. AdamW updates every
  parameter element from its own gradient and the optimizer's state.
\<close>

record 'o substrate =
  adamw_init :: "real \<Rightarrow> 'o"
  backward :: "(string \<times> tensor) list \<Rightarrow> tensor list \<Rightarrow> int list \<Rightarrow> tensor \<Rightarrow> string \<Rightarrow> nat \<Rightarrow> real"
  adamw_param :: "'o \<Rightarrow> string \<Rightarrow> nat \<Rightarrow> real \<Rightarrow> real \<Rightarrow> real"
  adamw_state :: "'o \<Rightarrow> (string \<Rightarrow> nat \<Rightarrow> real) \<Rightarrow> 'o"

record 'o DQN =
  layer1 :: Linear
  layer2 :: Linear
  layer3 :: Linear
  optimizer :: 'o

definition DQN_init :: "'o substrate \<Rightarrow> (string \<Rightarrow> nat \<Rightarrow> real) \<Rightarrow> int \<Rightarrow> int \<Rightarrow> real \<Rightarrow> error + 'o DQN" where
  "DQN_init S init n_observations n_actions lr =
     (case Linear_init (init ''layer1'') n_observations 128 of
        Inl e \<Rightarrow> Inl e
      | Inr l1 \<Rightarrow>
     (case Linear_init (init ''layer2'') 128 128 of
        Inl e \<Rightarrow> Inl e
      | Inr l2 \<Rightarrow>
     (case Linear_init (init ''layer3'') 128 n_actions of
        Inl e \<Rightarrow> Inl e
      | Inr l3 \<Rightarrow>
          Inr \<lparr> layer1 = l1, layer2 = l2, layer3 = l3, optimizer = adamw_init S lr \<rparr>)))"

definition forward :: "'o DQN \<Rightarrow> tensor \<Rightarrow> error + tensor" where
  "forward self x =
     (case Linear_forward (layer1 self) x of
        Inl e \<Rightarrow> Inl e
      | Inr h1 \<Rightarrow>
     (case Linear_forward (layer2 self) (relu h1) of
        Inl e \<Rightarrow> Inl e
      | Inr h2 \<Rightarrow> Linear_forward (layer3 self) (relu h2)))"

text \<open>The estimator on a batch: one output row per input row, the first failure wins.\<close>

fun forward_batch :: "'o DQN \<Rightarrow> tensor list \<Rightarrow> error + tensor list" where
  "forward_batch self [] = Inr []"
| "forward_batch self (x # xs) =
     (case forward self x of
        Inl e \<Rightarrow> Inl e
      | Inr y \<Rightarrow> (case forward_batch self xs of Inl e \<Rightarrow> Inl e | Inr ys \<Rightarrow> Inr (y # ys)))"

text \<open>
  \<^verbatim>\<open>state_dict()\<close> lists the named parameter tensors in registration order;
  \<^verbatim>\<open>load_state_dict\<close> (strict) refuses a dictionary whose keys are not exactly the
  estimator's or whose tensors have another size, and otherwise copies every tensor in.
\<close>

definition state_dict :: "'o DQN \<Rightarrow> (string \<times> tensor) list" where
  "state_dict self =
     [(''layer1.weight'', weight (layer1 self)), (''layer1.bias'', bias (layer1 self)),
      (''layer2.weight'', weight (layer2 self)), (''layer2.bias'', bias (layer2 self)),
      (''layer3.weight'', weight (layer3 self)), (''layer3.bias'', bias (layer3 self))]"

definition getitem :: "(string \<times> tensor) list \<Rightarrow> string \<Rightarrow> error + tensor" where
  "getitem d key = (case map_of d key of None \<Rightarrow> Inl KeyError | Some v \<Rightarrow> Inr v)"

fun setitem :: "(string \<times> tensor) list \<Rightarrow> string \<Rightarrow> tensor \<Rightarrow> (string \<times> tensor) list" where
  "setitem [] key v = [(key, v)]"
| "setitem ((k, x) # d) key v = (if k = key then (k, v) # d else (k, x) # setitem d key v)"

definition entry :: "(string \<times> tensor) list \<Rightarrow> string \<Rightarrow> tensor" where
  "entry d key = (case map_of d key of None \<Rightarrow> [] | Some v \<Rightarrow> v)"

definition same_sizes :: "(string \<times> tensor) list \<Rightarrow> (string \<times> tensor) list \<Rightarrow> bool" where
  "same_sizes own d =
     list_all (\<lambda>(key, v). map_option length (map_of d key) = Some (length v)) own"

definition load_state_dict :: "'o DQN \<Rightarrow> (string \<times> tensor) list \<Rightarrow> error + 'o DQN" where
  "load_state_dict self d =
     (if set (map fst d) \<noteq> set (map fst (state_dict self)) \<or> \<not> same_sizes (state_dict self) d
      then Inl RuntimeError
      else Inr (self
        \<lparr> layer1 := (layer1 self) \<lparr> weight := entry d ''layer1.weight'', bias := entry d ''layer1.bias'' \<rparr>,
          layer2 := (layer2 self) \<lparr> weight := entry d ''layer2.weight'', bias := entry d ''layer2.bias'' \<rparr>,
          layer3 := (layer3 self) \<lparr> weight := entry d ''layer3.weight'', bias := entry d ''layer3.bias'' \<rparr> \<rparr>))"

section \<open>EpsilonGreedyPolicy\<close>

record EpsilonGreedyPolicy =
  steps_done :: int
  eps_end :: real
  eps_start :: real
  eps_decay :: real
  n_actions :: int

definition EpsilonGreedyPolicy_init :: "real \<Rightarrow> real \<Rightarrow> real \<Rightarrow> int \<Rightarrow> EpsilonGreedyPolicy" where
  "EpsilonGreedyPolicy_init e_end e_start e_decay n =
     \<lparr> steps_done = 0, eps_end = e_end, eps_start = e_start, eps_decay = e_decay, n_actions = n \<rparr>"

text \<open>
  \<^verbatim>\<open>math.exp\<close> raises \<^verbatim>\<open>OverflowError\<close> when its result is beyond the largest float, that is
  for an argument above the logarithm of the largest float, \<open>709.782712893384\<close>. A result
  too small for a float is returned as zero, without an exception.
\<close>

definition exp_overflow_bound :: real where
  "exp_overflow_bound = 709782712893384 / 1000000000000"

definition math_exp :: "real \<Rightarrow> error + real" where
  "math_exp x = (if exp_overflow_bound < x then Inl OverflowError else Inr (exp x))"

text \<open>
  \<^verbatim>\<open>eps_threshold = self.eps_end + (self.eps_start - self.eps_end) *
      math.exp(-1. * self.steps_done / self.eps_decay)\<close>.
  Python's division raises \<^verbatim>\<open>ZeroDivisionError\<close> on a zero divisor, and \<^verbatim>\<open>math.exp\<close> may
  raise as above. The counter is converted to a float exactly (a counter beyond the range
  of floats is outside the model).
\<close>

definition eps_threshold :: "EpsilonGreedyPolicy \<Rightarrow> error + real" where
  "eps_threshold self =
     (if eps_decay self = 0 then Inl ZeroDivisionError
      else (case math_exp (- 1 * real_of_int (steps_done self) / eps_decay self) of
              Inl e \<Rightarrow> Inl e
            | Inr v \<Rightarrow> Inr (eps_end self + (eps_start self - eps_end self) * v)))"

text \<open>\<^verbatim>\<open>random.randint(a, b)\<close> is \<^verbatim>\<open>a + randbelow(b - a + 1)\<close> and refuses an empty range.\<close>

definition randint :: "nat \<Rightarrow> int \<Rightarrow> int \<Rightarrow> error + int" where
  "randint raw a b =
     (if b < a then Inl ValueError else Inr (a + int (randbelow raw (nat (b - a + 1)))))"

text \<open>
  \<^verbatim>\<open>.max(1)\<close> of a row: its largest value and the first position holding it; a row without
  elements cannot be reduced.
\<close>

definition max_values :: "tensor \<Rightarrow> error + real" where
  "max_values q = (case q of [] \<Rightarrow> Inl IndexError | x # xs \<Rightarrow> Inr (fold max xs x))"

fun first_index :: "real \<Rightarrow> tensor \<Rightarrow> nat" where
  "first_index v [] = 0"
| "first_index v (x # xs) = (if x = v then 0 else Suc (first_index v xs))"

definition max_indices :: "tensor \<Rightarrow> error + int" where
  "max_indices q =
     (case max_values q of Inl e \<Rightarrow> Inl e | Inr v \<Rightarrow> Inr (int (first_index v q)))"

text \<open>
  \<^verbatim>\<open>select_action\<close>: \<open>u\<close> is the value of \<^verbatim>\<open>random.random()\<close> and \<open>raw\<close> the raw number behind
  \<^verbatim>\<open>random.randint\<close>. The result is the action or the exception raised, with the policy
  object as the call leaves it.
\<close>

definition select_action ::
  "EpsilonGreedyPolicy \<Rightarrow> real \<Rightarrow> nat \<Rightarrow> tensor \<Rightarrow> 'o DQN \<Rightarrow> (error + int) \<times> EpsilonGreedyPolicy" where
  "select_action self u raw st policy_net =
     (case eps_threshold self of
        Inl e \<Rightarrow> (Inl e, self)
      | Inr threshold \<Rightarrow>
          (let self' = self \<lparr> steps_done := steps_done self + 1 \<rparr>
           in if u > threshold
              then (case forward policy_net st of
                      Inl e \<Rightarrow> (Inl e, self')
                    | Inr q \<Rightarrow> (max_indices q, self'))
              else (randint raw 0 (n_actions self - 1), self')))"


section \<open>The training state\<close>

text \<open>
  The objects \<^verbatim>\<open>dqn\<close> creates and mutates: the environment, the acting estimator
  \<^verbatim>\<open>policy_net\<close>, the target estimator \<^verbatim>\<open>target_net\<close>, the exploration policy and the replay
  memory. Every operation below takes the state and returns it as the operation leaves it,
  also when it raises.
\<close>

record ('e, 'o) world =
  env :: 'e
  policy_net :: "'o DQN"
  target_net :: "'o DQN"
  policy :: EpsilonGreedyPolicy
  replay_memory :: "Transition ReplayMemory"

section \<open>DQN.optimize_model\<close>

text \<open>
  \<^verbatim>\<open>torch.cat\<close> of a list of one-row tensors: the rows, stacked. It refuses an empty list and
  rows of different widths.
\<close>

definition cat :: "tensor list \<Rightarrow> error + tensor list" where
  "cat rows =
     (case rows of
        [] \<Rightarrow> Inl RuntimeError
      | r # rs \<Rightarrow> if list_all (\<lambda>r'. length r' = length r) rs then Inr rows else Inl RuntimeError)"

definition non_final_mask :: "Transition list \<Rightarrow> bool list" where
  "non_final_mask transitions = map (\<lambda>t. next_state t \<noteq> None) transitions"

definition non_final_next_states :: "Transition list \<Rightarrow> error + tensor list" where
  "non_final_next_states transitions =
     cat (concat (map (\<lambda>t. case next_state t of None \<Rightarrow> [] | Some s \<Rightarrow> [s]) transitions))"

text \<open>\<^verbatim>\<open>.gather(1, action_batch)\<close>: per row, the value in the column of the action taken.\<close>

fun gather :: "tensor list \<Rightarrow> int list \<Rightarrow> error + tensor" where
  "gather (q # qs) (a # as) =
     (if 0 \<le> a \<and> a < int (length q)
      then (case gather qs as of Inl e \<Rightarrow> Inl e | Inr vs \<Rightarrow> Inr (q ! nat a # vs))
      else Inl RuntimeError)"
| "gather [] [] = Inr []"
| "gather qs as = Inl RuntimeError"

fun max_values_batch :: "tensor list \<Rightarrow> error + tensor" where
  "max_values_batch [] = Inr []"
| "max_values_batch (q # qs) =
     (case max_values q of
        Inl e \<Rightarrow> Inl e
      | Inr v \<Rightarrow> (case max_values_batch qs of Inl e \<Rightarrow> Inl e | Inr vs \<Rightarrow> Inr (v # vs)))"

text \<open>
  \<^verbatim>\<open>next_state_values[non_final_mask] = values\<close>: the values go, in order, to the positions
  the mask marks; the other positions keep what they hold.
\<close>

fun masked_assign :: "tensor \<Rightarrow> bool list \<Rightarrow> tensor \<Rightarrow> tensor" where
  "masked_assign (v # vs) (True # ms) (x # xs) = x # masked_assign vs ms xs"
| "masked_assign (v # vs) (False # ms) xs = v # masked_assign vs ms xs"
| "masked_assign vs ms xs = vs"

definition setitem_mask :: "tensor \<Rightarrow> bool list \<Rightarrow> tensor \<Rightarrow> error + tensor" where
  "setitem_mask vs ms xs =
     (if length ms \<noteq> length vs then Inl IndexError
      else if length (filter id ms) \<noteq> length xs then Inl RuntimeError
      else Inr (masked_assign vs ms xs))"

text \<open>
  Lines 55 to 90 of \<^verbatim>\<open>optimize_model\<close>, from the sampled transitions to the regression
  targets, in the order of the source. \<^verbatim>\<open>Transition(*zip(*transitions))\<close> of no transitions
  is a call without arguments.
\<close>

record batch_values =
  state_batch :: "tensor list"
  action_batch :: "int list"
  state_action_values :: tensor
  next_state_values :: tensor
  expected_state_action_values :: tensor

definition batch_targets ::
  "'o DQN \<Rightarrow> 'o DQN \<Rightarrow> int \<Rightarrow> real \<Rightarrow> Transition list \<Rightarrow> error + batch_values" where
  "batch_targets self target batch_size gamma transitions =
     (if transitions = [] then Inl TypeError
      else
     (case non_final_next_states transitions of
        Inl e \<Rightarrow> Inl e
      | Inr nfns \<Rightarrow>
     (case cat (map state transitions) of
        Inl e \<Rightarrow> Inl e
      | Inr states \<Rightarrow>
     (let actions = map action transitions;
          reward_batch = map reward transitions
      in
     (case forward_batch self states of
        Inl e \<Rightarrow> Inl e
      | Inr q \<Rightarrow>
     (case gather q actions of
        Inl e \<Rightarrow> Inl e
      | Inr sav \<Rightarrow>
     (case forward_batch target nfns of
        Inl e \<Rightarrow> Inl e
      | Inr q' \<Rightarrow>
     (case max_values_batch q' of
        Inl e \<Rightarrow> Inl e
      | Inr best \<Rightarrow>
     (case setitem_mask (replicate (nat batch_size) 0) (non_final_mask transitions) best of
        Inl e \<Rightarrow> Inl e
      | Inr nsv \<Rightarrow>
          Inr \<lparr> state_batch = states, action_batch = actions, state_action_values = sav,
                next_state_values = nsv,
                expected_state_action_values = map2 (\<lambda>v r. v * gamma + r) nsv reward_batch \<rparr>)))))))))"

text \<open>
  Lines 92 to 102: the loss's gradient, clipped element by element to \<open>[-100, 100]\<close>
  (\<^verbatim>\<open>clip_grad_value_\<close>), and one AdamW step on every parameter of \<^verbatim>\<open>self\<close>.
\<close>

definition clip_grad_value :: "real \<Rightarrow> real" where
  "clip_grad_value g = max (- 100) (min 100 g)"

definition step_tensor :: "'o substrate \<Rightarrow> 'o \<Rightarrow> (string \<Rightarrow> nat \<Rightarrow> real) \<Rightarrow> string \<Rightarrow> tensor \<Rightarrow> tensor" where
  "step_tensor S opt grad key p =
     map (\<lambda>i. adamw_param S opt key i (p ! i) (grad key i)) [0 ..< length p]"

definition optimizer_step :: "'o substrate \<Rightarrow> 'o DQN \<Rightarrow> batch_values \<Rightarrow> 'o DQN" where
  "optimizer_step S self b =
     (let grad = (\<lambda>key i. clip_grad_value
                    (backward S (state_dict self) (state_batch b) (action_batch b)
                       (expected_state_action_values b) key i));
          opt = optimizer self
      in self
        \<lparr> layer1 := (layer1 self)
            \<lparr> weight := step_tensor S opt grad ''layer1.weight'' (weight (layer1 self)),
              bias := step_tensor S opt grad ''layer1.bias'' (bias (layer1 self)) \<rparr>,
          layer2 := (layer2 self)
            \<lparr> weight := step_tensor S opt grad ''layer2.weight'' (weight (layer2 self)),
              bias := step_tensor S opt grad ''layer2.bias'' (bias (layer2 self)) \<rparr>,
          layer3 := (layer3 self)
            \<lparr> weight := step_tensor S opt grad ''layer3.weight'' (weight (layer3 self)),
              bias := step_tensor S opt grad ''layer3.bias'' (bias (layer3 self)) \<rparr>,
          optimizer := adamw_state S opt grad \<rparr>)"

text \<open>
  \<^verbatim>\<open>policy_net.optimize_model(memory, batch_size, device, gamma, target_net, Transition)\<close>
  on the training state: \<^verbatim>\<open>self\<close> is \<open>policy_net w\<close>. The first component is the exception
  raised, if any.
\<close>

definition optimize_model ::
  "'o substrate \<Rightarrow> ('e, 'o) world \<Rightarrow> int \<Rightarrow> real \<Rightarrow> (nat \<Rightarrow> nat) \<Rightarrow> error option \<times> ('e, 'o) world" where
  "optimize_model S w batch_size gamma rnd =
     (if len (replay_memory w) < batch_size then (None, w)
      else
     (case sample (replay_memory w) batch_size rnd of
        (Inl e, m) \<Rightarrow> (Some e, w \<lparr> replay_memory := m \<rparr>)
      | (Inr transitions, m) \<Rightarrow>
     (case batch_targets (policy_net w) (target_net w) batch_size gamma transitions of
        Inl e \<Rightarrow> (Some e, w \<lparr> replay_memory := m \<rparr>)
      | Inr b \<Rightarrow>
          (None, w \<lparr> replay_memory := m, policy_net := optimizer_step S (policy_net w) b \<rparr>))))"

section \<open>Target tracking\<close>

text \<open>
  Lines 190 to 196 of \<^verbatim>\<open>dqn\<close>:
  \<^verbatim>\<open>
      for key in policy_net_state_dict:
          target_net_state_dict[key] = policy_net_state_dict[key] * tau +
                                       target_net_state_dict[key] * (1 - tau)
      target_net.load_state_dict(target_net_state_dict)
  \<close>
  The two tensors of a key have one size in this program (both estimators are built with
  the same widths); tensors of different sizes are refused here.
\<close>

definition soft_value :: "real \<Rightarrow> real \<Rightarrow> real \<Rightarrow> real" where
  "soft_value tau x y = x * tau + y * (1 - tau)"

definition blend :: "real \<Rightarrow> tensor \<Rightarrow> tensor \<Rightarrow> error + tensor" where
  "blend tau p t =
     (if length p \<noteq> length t then Inl RuntimeError
      else Inr (map2 (soft_value tau) p t))"

fun soft_update :: "real \<Rightarrow> (string \<times> tensor) list \<Rightarrow> string list \<Rightarrow> (string \<times> tensor) list \<Rightarrow>
    error + (string \<times> tensor) list" where
  "soft_update tau policy_sd [] target_sd = Inr target_sd"
| "soft_update tau policy_sd (key # keys) target_sd =
     (case getitem policy_sd key of
        Inl e \<Rightarrow> Inl e
      | Inr p \<Rightarrow>
     (case getitem target_sd key of
        Inl e \<Rightarrow> Inl e
      | Inr t \<Rightarrow>
     (case blend tau p t of
        Inl e \<Rightarrow> Inl e
      | Inr v \<Rightarrow> soft_update tau policy_sd keys (setitem target_sd key v))))"

definition target_tracker :: "real \<Rightarrow> 'o DQN \<Rightarrow> 'o DQN \<Rightarrow> error + 'o DQN" where
  "target_tracker tau policy_n target_n =
     (let target_net_state_dict = state_dict target_n;
          policy_net_state_dict = state_dict policy_n
      in case soft_update tau policy_net_state_dict (map fst policy_net_state_dict)
                target_net_state_dict of
           Inl e \<Rightarrow> Inl e
         | Inr d \<Rightarrow> load_state_dict target_n d)"

section \<open>The training function dqn\<close>

text \<open>
  The environment is a collaborator: its two static properties and its two operations, on
  an environment state of type \<open>'e\<close>.
\<close>

record 'e environment =
  state_dims :: int
  action_dims :: int
  reset :: "'e \<Rightarrow> 'e \<times> tensor"
  step :: "'e \<Rightarrow> int \<Rightarrow> 'e \<times> tensor \<times> real \<times> bool"

text \<open>
  Lines 150 to 162, the setup. The two estimators are built with the default learning
  rate of \<^verbatim>\<open>DQN.__init__\<close>; \<open>init_policy\<close> and \<open>init_target\<close> are their random initial values.
\<close>

definition dqn_setup ::
  "'e environment \<Rightarrow> 'o substrate \<Rightarrow> 'e \<Rightarrow> (string \<Rightarrow> nat \<Rightarrow> real) \<Rightarrow> (string \<Rightarrow> nat \<Rightarrow> real) \<Rightarrow>
   real \<Rightarrow> real \<Rightarrow> real \<Rightarrow> int \<Rightarrow> error + ('e, 'o) world" where
  "dqn_setup E S e0 init_policy init_target e_start e_end e_decay N =
     (let n_act = state_dims E;
          n_observations = action_dims E
      in
     (case DQN_init S init_policy n_observations n_act (1 / 10000) of
        Inl e \<Rightarrow> Inl e
      | Inr p \<Rightarrow>
     (case DQN_init S init_target n_observations n_act (1 / 10000) of
        Inl e \<Rightarrow> Inl e
      | Inr t0 \<Rightarrow>
     (case load_state_dict t0 (state_dict p) of
        Inl e \<Rightarrow> Inl e
      | Inr t \<Rightarrow>
     (case ReplayMemory_init N of
        Inl e \<Rightarrow> Inl e
      | Inr m \<Rightarrow>
          Inr \<lparr> env = e0, policy_net = p, target_net = t,
                policy = EpsilonGreedyPolicy_init e_end e_start e_decay n_act,
                replay_memory = m \<rparr>)))))"

text \<open>The random numbers one iteration of the inner loop consumes.\<close>

record draws =
  uniform :: real
  raw_action :: nat
  raw_sample :: "nat \<Rightarrow> nat"

text \<open>
  Lines 170 to 199, one iteration of the inner loop from the current state \<open>st\<close>. The result
  is the exception raised, or the next state (\<open>None\<close> when the environment said \<^verbatim>\<open>done\<close>, on
  which the loop breaks).
\<close>

definition dqn_step ::
  "'e environment \<Rightarrow> 'o substrate \<Rightarrow> int \<Rightarrow> real \<Rightarrow> real \<Rightarrow> ('e, 'o) world \<Rightarrow> tensor \<Rightarrow> draws \<Rightarrow>
   (error + tensor option) \<times> ('e, 'o) world" where
  "dqn_step E S batch_size gamma tau w st d =
     (case select_action (policy w) (uniform d) (raw_action d) st (policy_net w) of
        (Inl e, pol) \<Rightarrow> (Inl e, w \<lparr> policy := pol \<rparr>)
      | (Inr a, pol) \<Rightarrow>
     (case step E (env w) a of
        (env', observation, r, done) \<Rightarrow>
     (let nxt = (if done then None else Some observation);
          w1 = w \<lparr> policy := pol, env := env',
                   replay_memory := push (replay_memory w)
                      \<lparr> state = st, action = a, next_state = nxt, reward = r \<rparr> \<rparr>
      in
     (case optimize_model S w1 batch_size gamma (raw_sample d) of
        (Some e, w2) \<Rightarrow> (Inl e, w2)
      | (None, w2) \<Rightarrow>
     (case target_tracker tau (policy_net w2) (target_net w2) of
        Inl e \<Rightarrow> (Inl e, w2)
      | Inr t \<Rightarrow> (Inr nxt, w2 \<lparr> target_net := t \<rparr>))))))"

text \<open>
  The inner loop \<^verbatim>\<open>for t in count()\<close> has no bound of its own: it runs until the environment
  says \<^verbatim>\<open>done\<close> or an exception is raised. The model runs it on a list of draws, one element
  per iteration, and reports \<open>Cut\<close> when the list ends first. The outer loop runs
  \<^verbatim>\<open>episodes\<close> episodes.
\<close>

datatype outcome = Finished | Raised error | Cut

fun episode ::
  "'e environment \<Rightarrow> 'o substrate \<Rightarrow> int \<Rightarrow> real \<Rightarrow> real \<Rightarrow> ('e, 'o) world \<Rightarrow> tensor \<Rightarrow> draws list \<Rightarrow>
   outcome \<times> ('e, 'o) world \<times> draws list" where
  "episode E S batch_size gamma tau w st [] = (Cut, w, [])"
| "episode E S batch_size gamma tau w st (d # ds) =
     (case dqn_step E S batch_size gamma tau w st d of
        (Inl e, w') \<Rightarrow> (Raised e, w', ds)
      | (Inr None, w') \<Rightarrow> (Finished, w', ds)
      | (Inr (Some st'), w') \<Rightarrow> episode E S batch_size gamma tau w' st' ds)"

fun episodes_loop ::
  "'e environment \<Rightarrow> 'o substrate \<Rightarrow> int \<Rightarrow> real \<Rightarrow> real \<Rightarrow> nat \<Rightarrow> ('e, 'o) world \<Rightarrow> draws list \<Rightarrow>
   outcome \<times> ('e, 'o) world" where
  "episodes_loop E S batch_size gamma tau 0 w ds = (Finished, w)"
| "episodes_loop E S batch_size gamma tau (Suc n) w ds =
     (case reset E (env w) of
        (env', st) \<Rightarrow>
     (case episode E S batch_size gamma tau (w \<lparr> env := env' \<rparr>) st ds of
        (Finished, w', ds') \<Rightarrow> episodes_loop E S batch_size gamma tau n w' ds'
      | (out, w', ds') \<Rightarrow> (out, w')))"


text \<open>
  \<^verbatim>\<open>dqn\<close> itself: the setup, then the episodes. The parameter \<^verbatim>\<open>lr\<close> of \<^verbatim>\<open>dqn\<close> is not passed
  on to the estimators by the source and does not appear.
\<close>

definition dqn ::
  "'e environment \<Rightarrow> 'o substrate \<Rightarrow> 'e \<Rightarrow> (string \<Rightarrow> nat \<Rightarrow> real) \<Rightarrow> (string \<Rightarrow> nat \<Rightarrow> real) \<Rightarrow>
   draws list \<Rightarrow> real \<Rightarrow> real \<Rightarrow> real \<Rightarrow> int \<Rightarrow> real \<Rightarrow> int \<Rightarrow> real \<Rightarrow> int \<Rightarrow>
   outcome \<times> ('e, 'o) world option" where
  "dqn E S e0 init_policy init_target ds e_start e_end e_decay episodes gamma N tau batch_size =
     (case dqn_setup E S e0 init_policy init_target e_start e_end e_decay N of
        Inl e \<Rightarrow> (Raised e, None)
      | Inr w \<Rightarrow>
          (case episodes_loop E S batch_size gamma tau (nat episodes) w ds of
             (out, w') \<Rightarrow> (out, Some w')))"

section \<open>Small instances\<close>

text \<open>
  Concrete objects on which the model is run: estimators with layers of width one, a
  substrate whose gradient is constantly one and whose update is a plain descent step, an
  environment that ends every episode on its first step, and two transitions.
\<close>

definition unit_layer :: "real \<Rightarrow> real \<Rightarrow> Linear" where
  "unit_layer w b = \<lparr> in_features = 1, out_features = 1, weight = [w], bias = [b] \<rparr>"

definition small_net :: "real \<Rightarrow> unit DQN" where
  "small_net w = \<lparr> layer1 = unit_layer w 0, layer2 = unit_layer w 0, layer3 = unit_layer w 0,
                   optimizer = () \<rparr>"

definition plain_descent :: "unit substrate" where
  "plain_descent =
     \<lparr> adamw_init = (\<lambda>lr. ()),
       backward = (\<lambda>params states actions targets key i. 1),
       adamw_param = (\<lambda>opt key i p g. p - g / 10),
       adamw_state = (\<lambda>opt grad. opt) \<rparr>"

definition one_step_env :: "unit environment" where
  "one_step_env =
     \<lparr> state_dims = 2, action_dims = 4,
       reset = (\<lambda>e. (e, [1])),
       step = (\<lambda>e a. (e, [2], 1, True)) \<rparr>"

definition terminal_step :: Transition where
  "terminal_step = \<lparr> state = [1], action = 0, next_state = None, reward = 1 \<rparr>"

definition running_step :: Transition where
  "running_step = \<lparr> state = [1], action = 0, next_state = Some [2], reward = 1 \<rparr>"

definition small_world :: "real \<Rightarrow> Transition list \<Rightarrow> (unit, unit) world" where
  "small_world e_decay ts =
     \<lparr> env = (), policy_net = small_net 1, target_net = small_net 2,
       policy = EpsilonGreedyPolicy_init (1 / 20) (9 / 10) e_decay 1,
       replay_memory = \<lparr> maxlen = 4, memory = ts \<rparr> \<rparr>"

definition fixed_draws :: draws where
  "fixed_draws = \<lparr> uniform = 1 / 2, raw_action = 0, raw_sample = (\<lambda>i. 0) \<rparr>"


section \<open>Properties of the replay memory\<close>

subsection \<open>Bounded append\<close>

lemma push_length_le: "length (memory m) \<le> maxlen m \<Longrightarrow> length (memory (push m t)) \<le> maxlen (push m t)"
  by (auto simp: push_def Let_def)

lemma push_maxlen: "maxlen (push m t) = maxlen m"
  by (simp add: push_def Let_def)

lemma push_memory:
  assumes "length (memory m) \<le> maxlen m"
  shows "memory (push m t) = drop (length (memory m) + 1 - maxlen m) (memory m @ [t])"
proof (cases "length (memory m) = maxlen m")
  case True
  then have "length (memory m) + 1 - maxlen m = 1" by simp
  moreover have "drop 1 (memory m @ [t]) = tl (memory m @ [t])"
    by (simp add: drop_Suc del: drop_append)
  ultimately show ?thesis using True by (simp add: push_def Let_def del: drop_append tl_append2)
next
  case False
  with assms have "length (memory m) + 1 - maxlen m = 0" by simp
  then show ?thesis using False assms by (simp add: push_def Let_def)
qed

lemma push_all_maxlen: "maxlen (push_all m ts) = maxlen m"
  by (induction ts arbitrary: m) (simp_all add: push_maxlen)

lemma push_all_memory:
  "length (memory m) \<le> maxlen m \<Longrightarrow>
   memory (push_all m ts) = drop (length (memory m) + length ts - maxlen m) (memory m @ ts)"
proof (induction ts arbitrary: m)
  case Nil
  then show ?case by simp
next
  case (Cons t ts)
  have le: "length (memory (push m t)) \<le> maxlen (push m t)"
    using Cons.prems by (rule push_length_le)
  let ?d = "length (memory m) + 1 - maxlen m"
  have len: "length (memory (push m t)) = length (memory m) + 1 - ?d"
    using Cons.prems by (simp add: push_memory)
  have "memory (push_all (push m t) ts) =
      drop (length (memory (push m t)) + length ts - maxlen m) (memory (push m t) @ ts)"
    using Cons.IH[OF le] by (simp add: push_maxlen)
  also have "memory (push m t) @ ts = drop ?d (memory m @ t # ts)"
  proof -
    have "?d \<le> length (memory m @ [t])" by simp
    then have "drop ?d ((memory m @ [t]) @ ts) = drop ?d (memory m @ [t]) @ ts"
      by (simp del: append_assoc)
    then show ?thesis using Cons.prems by (simp add: push_memory del: drop_append)
  qed
  also have "drop (length (memory (push m t)) + length ts - maxlen m) (drop ?d (memory m @ t # ts))
     = drop (length (memory m) + length (t # ts) - maxlen m) (memory m @ t # ts)"
  proof -
    have "length (memory (push m t)) + length ts - maxlen m + ?d
        = length (memory m) + length (t # ts) - maxlen m"
      using Cons.prems len by simp
    then show ?thesis by (simp only: drop_drop)
  qed
  finally show ?case by simp
qed

text \<open>
  C3. A buffer built with capacity \<open>N\<close> never holds more than \<open>N\<close> transitions, whatever is
  pushed; once \<open>N + k\<close> transitions with \<open>k \<ge> 1\<close> have been pushed its size is \<open>N\<close> and it
  holds the last \<open>N\<close> of them, in the order they were pushed.
\<close>

theorem replay_memory_keeps_most_recent:
  fixes N k :: nat and ts :: "'a list"
  shows "\<exists>m :: 'a ReplayMemory. ReplayMemory_init (int N) = Inr m \<and>
           len (push_all m ts) \<le> int N \<and>
           (1 \<le> k \<and> length ts = N + k \<longrightarrow>
              len (push_all m ts) = int N \<and> memory (push_all m ts) = drop k ts)"
proof -
  let ?m = "\<lparr> maxlen = N, memory = [] \<rparr> :: 'a ReplayMemory"
  have init: "ReplayMemory_init (int N) = Inr ?m"
    by (simp add: ReplayMemory_init_def)
  have mem: "memory (push_all ?m ts) = drop (length ts - N) ts"
    using push_all_memory[of ?m ts] by simp
  have "len (push_all ?m ts) \<le> int N"
    by (simp add: len_def mem)
  moreover have "len (push_all ?m ts) = int N \<and> memory (push_all ?m ts) = drop k ts"
    if "1 \<le> k \<and> length ts = N + k"
    using that by (simp add: len_def mem)
  ultimately show ?thesis using init by blast
qed

theorem replay_memory_keeps_most_recent_witness:
  "len (push_all \<lparr> maxlen = 2, memory = [] \<rparr> [10, 20, 30 :: nat]) = 2 \<and>
   memory (push_all \<lparr> maxlen = 2, memory = [] \<rparr> [10, 20, 30 :: nat]) = [20, 30]"
  using replay_memory_keeps_most_recent[where N = 2 and k = 1 and ts = "[10, 20, 30 :: nat]"]
  by (simp add: ReplayMemory_init_def)

subsection \<open>Sampling\<close>

lemma sample_loop_length: "length (sample_loop r n i rnd pool) = r"
  by (induction r arbitrary: i pool) (simp_all add: Let_def)

lemma pool_step_mset:
  assumes "j < m" "m \<le> length pool"
  shows "mset (take (m - 1) (pool[j := pool ! (m - 1)])) = mset (take m pool) - {# pool ! j #}"
proof -
  obtain m' where m: "m = Suc m'" using assms(1) by (cases m) auto
  have split: "take m pool = take m' pool @ [pool ! m']"
    using assms(2) m by (simp add: take_Suc_conv_app_nth)
  show ?thesis
  proof (cases "j = m'")
    case True
    then show ?thesis using m split by simp
  next
    case False
    then have j: "j < length (take m' pool)" using assms m by simp
    have "mset ((take m' pool)[j := pool ! m']) =
        add_mset (pool ! m') (mset (take m' pool) - {# take m' pool ! j #})"
      using j by (rule mset_update)
    moreover have "take m' pool ! j = pool ! j" using j by simp
    moreover have "pool ! j \<in># mset (take m' pool)"
      using j by (metis nth_mem_mset \<open>take m' pool ! j = pool ! j\<close>)
    ultimately show ?thesis using m split by (simp add: take_update_swap)
  qed
qed

lemma sample_loop_map:
  "i + r \<le> n \<Longrightarrow> n \<le> length pool \<Longrightarrow>
   sample_loop r n i rnd (map f pool) = map f (sample_loop r n i rnd pool)"
proof (induction r arbitrary: i pool)
  case 0
  then show ?case by simp
next
  case (Suc r)
  let ?j = "randbelow (rnd i) (n - i)"
  let ?pool' = "pool[?j := pool ! (n - i - 1)]"
  have j: "?j < n - i" using Suc.prems by (simp add: randbelow_def)
  have upd: "(map f pool)[?j := map f pool ! (n - i - 1)] = map f ?pool'"
    using Suc.prems by (simp add: map_update)
  have "sample_loop r n (Suc i) rnd (map f ?pool') = map f (sample_loop r n (Suc i) rnd ?pool')"
    using Suc.prems by (intro Suc.IH) simp_all
  then show ?case using j Suc.prems upd by (simp add: Let_def)
qed

lemma sample_loop_mset:
  "i + r \<le> n \<Longrightarrow> n \<le> length pool \<Longrightarrow>
   mset (sample_loop r n i rnd pool) \<subseteq># mset (take (n - i) pool)"
proof (induction r arbitrary: i pool)
  case 0
  then show ?case by simp
next
  case (Suc r)
  let ?j = "randbelow (rnd i) (n - i)"
  let ?pool' = "pool[?j := pool ! (n - i - 1)]"
  have j: "?j < n - i" using Suc.prems by (simp add: randbelow_def)
  have "mset (sample_loop r n (Suc i) rnd ?pool') \<subseteq># mset (take (n - Suc i) ?pool')"
    using Suc.prems by (intro Suc.IH) simp_all
  moreover have "mset (take (n - Suc i) ?pool') = mset (take (n - i) pool) - {# pool ! ?j #}"
    using pool_step_mset[OF j, of pool] Suc.prems by simp
  moreover have "pool ! ?j \<in># mset (take (n - i) pool)"
    using j Suc.prems by (metis nth_mem_mset length_take min.absorb2 nth_take diff_le_self le_trans)
  ultimately show ?case by (simp add: Let_def insert_subset_eq_iff)
qed

lemma distinct_mset_subseteq:
  assumes "mset xs \<subseteq># mset ys" "distinct ys"
  shows "distinct xs"
proof -
  have "count (mset xs) a = (if a \<in> set xs then 1 else 0)" for a
  proof (cases "a \<in> set xs")
    case True
    then have "1 \<le> count (mset xs) a" by (simp add: Suc_le_eq)
    moreover have "count (mset xs) a \<le> count (mset ys) a"
      using assms(1) by (rule mset_subset_eq_count)
    moreover have "count (mset ys) a \<le> 1"
      using assms(2) by (simp add: distinct_count_atmost_1)
    ultimately have "count (mset xs) a = 1" by linarith
    then show ?thesis using True by simp
  next
    case False
    then show ?thesis by (simp add: count_eq_zero_iff)
  qed
  then show ?thesis by (simp add: distinct_count_atmost_1)
qed

lemma sample_loop_positions:
  assumes "k \<le> length pool"
  shows "sample_loop k (length pool) 0 rnd pool =
         map (nth pool) (sample_loop k (length pool) 0 rnd [0..<length pool])"
    and "distinct (sample_loop k (length pool) 0 rnd [0..<length pool])"
    and "set (sample_loop k (length pool) 0 rnd [0..<length pool]) \<subseteq> {0..<length pool}"
proof -
  let ?is = "sample_loop k (length pool) 0 rnd [0..<length pool]"
  have "sample_loop k (length pool) 0 rnd (map (nth pool) [0..<length pool]) = map (nth pool) ?is"
    using assms by (intro sample_loop_map) simp_all
  then show "sample_loop k (length pool) 0 rnd pool = map (nth pool) ?is"
    by (simp add: map_nth)
  have sub: "mset ?is \<subseteq># mset (take (length pool - 0) [0..<length pool])"
    using assms by (intro sample_loop_mset) simp_all
  then have sub': "mset ?is \<subseteq># mset [0..<length pool]" by simp
  show "distinct ?is"
    using sub' by (rule distinct_mset_subseteq) simp
  show "set ?is \<subseteq> {0..<length pool}"
    using set_mset_mono[OF sub'] by simp
qed

text \<open>
  The loop reaches every selection: any list of pairwise distinct positions of the buffer
  is the result of \<open>sample\<close> for suitable draws. So the model leaves out no result that
  sampling without replacement can give.
\<close>

lemma sample_loop_cong:
  "(\<And>k. i \<le> k \<Longrightarrow> rnd k = rnd' k) \<Longrightarrow>
   sample_loop r n i rnd pool = sample_loop r n i rnd' pool"
proof (induction r arbitrary: i pool)
  case 0
  then show ?case by simp
next
  case (Suc r)
  have "sample_loop r n (Suc i) rnd (pool[randbelow (rnd' i) (n - i) := pool ! (n - i - 1)])
      = sample_loop r n (Suc i) rnd' (pool[randbelow (rnd' i) (n - i) := pool ! (n - i - 1)])"
    by (rule Suc.IH) (simp add: Suc.prems)
  then show ?case using Suc.prems[of i] by (simp add: Let_def)
qed

lemma sample_loop_reaches:
  "n \<le> length pool \<Longrightarrow> mset xs \<subseteq># mset (take (n - i) pool) \<Longrightarrow>
   \<exists>rnd. sample_loop (length xs) n i rnd pool = xs"
proof (induction xs arbitrary: i pool)
  case Nil
  then show ?case by simp
next
  case (Cons x xs)
  let ?live = "take (n - i) pool"
  have "x \<in> set ?live"
    using Cons.prems(2) by (metis mset_subset_eq_insertD set_mset_mset mset.simps(2))
  then obtain j where j: "j < length ?live" "?live ! j = x"
    by (auto simp: in_set_conv_nth)
  then have jn: "j < n - i" and pj: "pool ! j = x" using Cons.prems(1) by simp_all
  let ?pool' = "pool[j := pool ! (n - i - 1)]"
  have step: "mset (take (n - Suc i) ?pool') = mset ?live - {# x #}"
    using pool_step_mset[OF jn, of pool] Cons.prems(1) pj by simp
  have "mset xs \<subseteq># mset (take (n - Suc i) ?pool')"
    unfolding step using Cons.prems(2)
    by (simp add: insert_subset_eq_iff)
  moreover have "n \<le> length ?pool'" using Cons.prems(1) by simp
  ultimately obtain rnd' where rnd': "sample_loop (length xs) n (Suc i) rnd' ?pool' = xs"
    using Cons.IH[of ?pool' "Suc i"] by blast
  let ?rnd = "rnd'(i := j)"
  have "sample_loop (length xs) n (Suc i) ?rnd ?pool' = sample_loop (length xs) n (Suc i) rnd' ?pool'"
    by (rule sample_loop_cong) simp
  moreover have "randbelow (?rnd i) (n - i) = j" using jn by (simp add: randbelow_def)
  ultimately have "sample_loop (length (x # xs)) n i ?rnd pool = x # xs"
    using rnd' pj by (simp add: Let_def)
  then show ?case by blast
qed

lemma sample_reaches_every_selection:
  assumes "distinct ps" "list_all (\<lambda>p. p < length (memory m)) ps"
  shows "\<exists>rnd. sample m (int (length ps)) rnd = (Inr (map (nth (memory m)) ps), m)"
proof -
  let ?n = "length (memory m)"
  have sub: "set ps \<subseteq> set [0..<?n]" using assms(2) by (auto simp: list_all_iff)
  have le: "length ps \<le> ?n"
    using assms(1) sub by (metis card_mono distinct_card finite_set length_upt minus_nat.diff_0 distinct_upt)
  have "mset ps \<subseteq># mset [0..<?n]"
    using assms(1) sub by (metis distinct_upt mset_set_set set_mset_mset subset_imp_msubset_mset_set finite_set)
  then have "mset ps \<subseteq># mset (take (?n - 0) [0..<?n])" by simp
  then obtain rnd where rnd: "sample_loop (length ps) ?n 0 rnd [0..<?n] = ps"
    using sample_loop_reaches[of ?n "[0..<?n]" ps 0] by auto
  have "sample_loop (length ps) ?n 0 rnd (map (nth (memory m)) [0..<?n]) =
        map (nth (memory m)) (sample_loop (length ps) ?n 0 rnd [0..<?n])"
    using le by (intro sample_loop_map) simp_all
  then have "sample_loop (length ps) ?n 0 rnd (memory m) = map (nth (memory m)) ps"
    by (simp add: map_nth rnd)
  then have "sample m (int (length ps)) rnd = (Inr (map (nth (memory m)) ps), m)"
    using le by (simp add: sample_def random_sample_def)
  then show ?thesis by blast
qed

text \<open>
  C8. For a sample size \<open>k\<close> that does not exceed the buffer's size, \<open>sample\<close> returns \<open>k\<close>
  elements, read at \<open>k\<close> pairwise distinct positions of the buffer (so each of them is a
  transition the buffer holds, and none is drawn twice), and the buffer is as it was.
\<close>

theorem sample_without_replacement:
  fixes m :: "'a ReplayMemory" and k :: nat
  assumes "int k \<le> len m"
  shows "\<exists>xs ps. sample m (int k) rnd = (Inr xs, m) \<and> length xs = k \<and>
           length ps = k \<and> distinct ps \<and> (\<forall>p \<in> set ps. p < length (memory m)) \<and>
           xs = map (nth (memory m)) ps \<and> mset xs \<subseteq># mset (memory m)"
proof -
  let ?pool = "memory m"
  let ?xs = "sample_loop k (length ?pool) 0 rnd ?pool"
  let ?ps = "sample_loop k (length ?pool) 0 rnd [0..<length ?pool]"
  have k: "k \<le> length ?pool" using assms by (simp add: len_def)
  have "sample m (int k) rnd = (Inr ?xs, m)"
    using k by (simp add: sample_def random_sample_def)
  moreover have "length ?xs = k" "length ?ps = k"
    by (simp_all add: sample_loop_length)
  moreover have "distinct ?ps" "?xs = map (nth ?pool) ?ps"
    using sample_loop_positions[OF k] by simp_all
  moreover have "\<forall>p \<in> set ?ps. p < length ?pool"
    using sample_loop_positions(3)[OF k, of rnd] by auto
  moreover have "mset ?xs \<subseteq># mset ?pool"
    using sample_loop_mset[of 0 k "length ?pool" ?pool rnd] k by simp
  ultimately show ?thesis by blast
qed

theorem sample_without_replacement_witness:
  "int 2 \<le> len \<lparr> maxlen = 5, memory = [10, 20, 30 :: nat] \<rparr> \<and>
   (\<exists>xs ps. sample \<lparr> maxlen = 5, memory = [10, 20, 30 :: nat] \<rparr> (int 2) (\<lambda>i. 4)
        = (Inr xs, \<lparr> maxlen = 5, memory = [10, 20, 30] \<rparr>) \<and>
      length xs = 2 \<and> length ps = 2 \<and> distinct ps \<and>
      (\<forall>p \<in> set ps. p < length (memory \<lparr> maxlen = 5, memory = [10, 20, 30 :: nat] \<rparr>)) \<and>
      xs = map (nth (memory \<lparr> maxlen = 5, memory = [10, 20, 30 :: nat] \<rparr>)) ps \<and>
      mset xs \<subseteq># mset (memory \<lparr> maxlen = 5, memory = [10, 20, 30 :: nat] \<rparr>))"
proof -
  have h: "int 2 \<le> len \<lparr> maxlen = 5, memory = [10, 20, 30 :: nat] \<rparr>"
    by (simp add: len_def)
  show ?thesis
    using h sample_without_replacement[OF h, of "\<lambda>i. 4"] by blast
qed

text \<open>
  C10. A sample size larger than the buffer's size makes \<open>sample\<close> raise \<open>ValueError\<close>; nothing
  is returned and the buffer is as it was.
\<close>

theorem sample_too_large_raises:
  "len m < k \<Longrightarrow> sample m k rnd = (Inl ValueError, m)"
  by (simp add: sample_def random_sample_def len_def)

theorem sample_too_large_raises_witness:
  "len \<lparr> maxlen = 5, memory = [10, 20 :: nat] \<rparr> < 3 \<and>
   sample \<lparr> maxlen = 5, memory = [10, 20 :: nat] \<rparr> 3 (\<lambda>i. 0) = (Inl ValueError, \<lparr> maxlen = 5, memory = [10, 20] \<rparr>)"
  using sample_too_large_raises[of "\<lparr> maxlen = 5, memory = [10, 20 :: nat] \<rparr>" 3 "\<lambda>i. 0"]
  by (simp add: len_def)

section \<open>Properties of the optimizer step\<close>

subsection \<open>The regression targets\<close>

lemma masked_assign_length: "length (masked_assign vs ms xs) = length vs"
  by (induction vs ms xs rule: masked_assign.induct) simp_all

lemma masked_assign_unmarked:
  "i < length vs \<Longrightarrow> i < length ms \<Longrightarrow> \<not> ms ! i \<Longrightarrow> masked_assign vs ms xs ! i = vs ! i"
proof (induction vs ms xs arbitrary: i rule: masked_assign.induct)
  case (1 v vs ms x xs)
  then show ?case by (cases i) simp_all
next
  case (2 v vs ms xs)
  then show ?case by (cases i) simp_all
qed simp_all

lemma batch_targets_terminal_row:
  assumes ok: "batch_targets self target batch_size gamma transitions = Inr b"
    and i: "i < length transitions"
    and fin: "next_state (transitions ! i) = None"
  shows "next_state_values b ! i = 0 \<and>
         expected_state_action_values b ! i = reward (transitions ! i)"
proof -
  from ok obtain best where
    nsv: "setitem_mask (replicate (nat batch_size) 0) (non_final_mask transitions) best
            = Inr (next_state_values b)"
    and ex: "expected_state_action_values b =
            map2 (\<lambda>v r. v * gamma + r) (next_state_values b) (map reward transitions)"
    by (auto simp: batch_targets_def Let_def split: if_splits sum.splits)
  from nsv have len: "length transitions = nat batch_size"
    and val: "next_state_values b =
        masked_assign (replicate (nat batch_size) 0) (non_final_mask transitions) best"
    by (auto simp: setitem_mask_def non_final_mask_def split: if_splits)
  have zero: "next_state_values b ! i = 0"
    using i fin len unfolding val
    by (subst masked_assign_unmarked) (simp_all add: non_final_mask_def)
  have "length (next_state_values b) = length transitions"
    unfolding val by (simp add: masked_assign_length len)
  then have "expected_state_action_values b ! i
      = next_state_values b ! i * gamma + reward (transitions ! i)"
    using i unfolding ex by simp
  with zero show ?thesis by simp
qed

lemma non_final_next_states_all_terminal:
  assumes "list_all (\<lambda>t. next_state t = None) transitions"
  shows "non_final_next_states transitions = Inl RuntimeError"
proof -
  have c: "concat (map (\<lambda>t. case next_state t of None \<Rightarrow> [] | Some s \<Rightarrow> [s]) transitions) = []"
    using assms by (induction transitions) simp_all
  show ?thesis unfolding non_final_next_states_def c by (simp add: cat_def)
qed

lemma batch_targets_all_terminal:
  assumes "transitions \<noteq> []" "list_all (\<lambda>t. next_state t = None) transitions"
  shows "batch_targets self target batch_size gamma transitions = Inl RuntimeError"
  using assms(1) non_final_next_states_all_terminal[OF assms(2)]
  by (simp add: batch_targets_def)

text \<open>
  C1. The claim is that every terminal row of every sampled batch gets its reward as
  regression target. On the batches that reach line 90 this is \<open>batch_targets_terminal_row\<close>
  above. A batch made of terminal transitions only does not reach it: the list of
  non-final next states is empty, \<^verbatim>\<open>torch.cat\<close> refuses it at line 67, and the step raises
  before any target is computed. Here the buffer holds one terminal transition and the
  batch size is one.
\<close>

theorem optimize_model_all_terminal_batch_raises:
  "optimize_model plain_descent (small_world 1000 [terminal_step]) 1 (99 / 100) (\<lambda>i. 0)
     = (Some RuntimeError, small_world 1000 [terminal_step])"
  by (simp add: optimize_model_def small_world_def len_def sample_def random_sample_def
      randbelow_def batch_targets_def non_final_next_states_def terminal_step_def cat_def)

subsection \<open>Warm-up and frame\<close>

text \<open>
  C2. With fewer transitions in the buffer than the batch size, the optimizer step returns
  without raising and leaves the whole training state as it was: both estimators and the
  buffer.
\<close>

theorem optimize_model_skips_small_buffer:
  "len (replay_memory w) < batch_size \<Longrightarrow> optimize_model S w batch_size gamma rnd = (None, w)"
  by (simp add: optimize_model_def)

theorem optimize_model_skips_small_buffer_witness:
  "len (replay_memory (small_world 1000 [running_step])) < 2 \<and>
   optimize_model plain_descent (small_world 1000 [running_step]) 2 (99 / 100) (\<lambda>i. 0)
     = (None, small_world 1000 [running_step])"
proof -
  have h: "len (replay_memory (small_world 1000 [running_step])) < 2"
    by (simp add: small_world_def len_def)
  show ?thesis
    using h optimize_model_skips_small_buffer[OF h, of plain_descent "99 / 100" "\<lambda>i. 0"] by simp
qed

lemma optimize_model_frame:
  "\<exists>p. snd (optimize_model S w batch_size gamma rnd) = w \<lparr> policy_net := p \<rparr>"
proof -
  have "w = w \<lparr> policy_net := policy_net w \<rparr>" by simp
  then show ?thesis
    by (auto simp: optimize_model_def sample_def split: sum.splits prod.splits intro: exI[of _ "policy_net w"])
qed

text \<open>
  C7. When the buffer holds at least \<open>batch_size\<close> transitions, the optimizer step changes
  nothing of the training state but the acting estimator: the target estimator and the
  buffer are as before, whether the step completes or raises.
\<close>

theorem optimize_model_changes_only_policy_net:
  assumes "batch_size \<le> len (replay_memory w)"
  shows "(\<exists>p. snd (optimize_model S w batch_size gamma rnd) = w \<lparr> policy_net := p \<rparr>) \<and>
         target_net (snd (optimize_model S w batch_size gamma rnd)) = target_net w \<and>
         replay_memory (snd (optimize_model S w batch_size gamma rnd)) = replay_memory w"
proof -
  obtain p where p: "snd (optimize_model S w batch_size gamma rnd) = w \<lparr> policy_net := p \<rparr>"
    using optimize_model_frame by blast
  then show ?thesis by (simp add: exI[of _ p])
qed

theorem optimize_model_changes_only_policy_net_witness:
  "1 \<le> len (replay_memory (small_world 1000 [running_step])) \<and>
   target_net (snd (optimize_model plain_descent (small_world 1000 [running_step]) 1 (99 / 100) (\<lambda>i. 0)))
     = small_net 2 \<and>
   replay_memory (snd (optimize_model plain_descent (small_world 1000 [running_step]) 1 (99 / 100) (\<lambda>i. 0)))
     = \<lparr> maxlen = 4, memory = [running_step] \<rparr>"
proof -
  have h: "1 \<le> len (replay_memory (small_world 1000 [running_step]))"
    by (simp add: small_world_def len_def)
  show ?thesis
    using h optimize_model_changes_only_policy_net[OF h, of plain_descent "99 / 100" "\<lambda>i. 0"]
    by (simp add: small_world_def)
qed

section \<open>Properties of target tracking\<close>

lemma map2_soft_value_one: "length a = length b \<Longrightarrow> map2 (soft_value 1) a b = a"
proof -
  have "(\<lambda>(x, y). soft_value 1 x y) = fst" by (auto simp: soft_value_def)
  then show "length a = length b \<Longrightarrow> map2 (soft_value 1) a b = a" by (simp add: map_fst_zip)
qed

lemma map2_soft_value_zero: "length a = length b \<Longrightarrow> map2 (soft_value 0) a b = b"
proof -
  have "(\<lambda>(x, y). soft_value 0 x y) = snd" by (auto simp: soft_value_def)
  then show "length a = length b \<Longrightarrow> map2 (soft_value 0) a b = b" by (simp add: map_snd_zip)
qed

lemma same_sizes_fields:
  assumes "same_sizes (state_dict t) (state_dict p)"
  shows "length (weight (layer1 p)) = length (weight (layer1 t))"
    "length (bias (layer1 p)) = length (bias (layer1 t))"
    "length (weight (layer2 p)) = length (weight (layer2 t))"
    "length (bias (layer2 p)) = length (bias (layer2 t))"
    "length (weight (layer3 p)) = length (weight (layer3 t))"
    "length (bias (layer3 p)) = length (bias (layer3 t))"
  using assms by (simp_all add: same_sizes_def state_dict_def)

lemma soft_update_state_dicts:
  assumes "same_sizes (state_dict t) (state_dict p)"
  shows "soft_update tau (state_dict p) (map fst (state_dict p)) (state_dict t) =
     Inr [(''layer1.weight'', map2 (soft_value tau) (weight (layer1 p)) (weight (layer1 t))),
          (''layer1.bias'', map2 (soft_value tau) (bias (layer1 p)) (bias (layer1 t))),
          (''layer2.weight'', map2 (soft_value tau) (weight (layer2 p)) (weight (layer2 t))),
          (''layer2.bias'', map2 (soft_value tau) (bias (layer2 p)) (bias (layer2 t))),
          (''layer3.weight'', map2 (soft_value tau) (weight (layer3 p)) (weight (layer3 t))),
          (''layer3.bias'', map2 (soft_value tau) (bias (layer3 p)) (bias (layer3 t)))]"
  using same_sizes_fields[OF assms]
  by (simp add: state_dict_def getitem_def blend_def)

lemma target_tracker_result:
  assumes "same_sizes (state_dict t) (state_dict p)"
  shows "target_tracker tau p t = Inr (t
        \<lparr> layer1 := (layer1 t) \<lparr> weight := map2 (soft_value tau) (weight (layer1 p)) (weight (layer1 t)),
                                bias := map2 (soft_value tau) (bias (layer1 p)) (bias (layer1 t)) \<rparr>,
          layer2 := (layer2 t) \<lparr> weight := map2 (soft_value tau) (weight (layer2 p)) (weight (layer2 t)),
                                bias := map2 (soft_value tau) (bias (layer2 p)) (bias (layer2 t)) \<rparr>,
          layer3 := (layer3 t) \<lparr> weight := map2 (soft_value tau) (weight (layer3 p)) (weight (layer3 t)),
                                bias := map2 (soft_value tau) (bias (layer3 p)) (bias (layer3 t)) \<rparr> \<rparr>)"
proof -
  note sz = same_sizes_fields[OF assms]
  show ?thesis
    unfolding target_tracker_def Let_def soft_update_state_dicts[OF assms]
    by (simp add: load_state_dict_def state_dict_def same_sizes_def entry_def sz)
qed

lemma soft_update_elements:
  assumes "same_sizes (state_dict t) (state_dict p)"
    and "key \<in> fst ` set (state_dict t)"
    and "i < length (entry (state_dict t) key)"
  shows "length (entry [(''layer1.weight'', map2 (soft_value tau) (weight (layer1 p)) (weight (layer1 t))),
          (''layer1.bias'', map2 (soft_value tau) (bias (layer1 p)) (bias (layer1 t))),
          (''layer2.weight'', map2 (soft_value tau) (weight (layer2 p)) (weight (layer2 t))),
          (''layer2.bias'', map2 (soft_value tau) (bias (layer2 p)) (bias (layer2 t))),
          (''layer3.weight'', map2 (soft_value tau) (weight (layer3 p)) (weight (layer3 t))),
          (''layer3.bias'', map2 (soft_value tau) (bias (layer3 p)) (bias (layer3 t)))] key)
         = length (entry (state_dict t) key) \<and>
       entry [(''layer1.weight'', map2 (soft_value tau) (weight (layer1 p)) (weight (layer1 t))),
          (''layer1.bias'', map2 (soft_value tau) (bias (layer1 p)) (bias (layer1 t))),
          (''layer2.weight'', map2 (soft_value tau) (weight (layer2 p)) (weight (layer2 t))),
          (''layer2.bias'', map2 (soft_value tau) (bias (layer2 p)) (bias (layer2 t))),
          (''layer3.weight'', map2 (soft_value tau) (weight (layer3 p)) (weight (layer3 t))),
          (''layer3.bias'', map2 (soft_value tau) (bias (layer3 p)) (bias (layer3 t)))] key ! i
         = tau * entry (state_dict p) key ! i + (1 - tau) * entry (state_dict t) key ! i"
proof -
  note sz = same_sizes_fields[OF assms(1)]
  from assms(2) consider "key = ''layer1.weight''" | "key = ''layer1.bias''"
    | "key = ''layer2.weight''" | "key = ''layer2.bias''"
    | "key = ''layer3.weight''" | "key = ''layer3.bias''"
    unfolding state_dict_def by (simp add: image_def) blast
  then show ?thesis
  proof cases
    case 1
    then show ?thesis using assms(3) sz by (simp add: state_dict_def entry_def soft_value_def)
  next
    case 2
    then show ?thesis using assms(3) sz by (simp add: state_dict_def entry_def soft_value_def)
  next
    case 3
    then show ?thesis using assms(3) sz by (simp add: state_dict_def entry_def soft_value_def)
  next
    case 4
    then show ?thesis using assms(3) sz by (simp add: state_dict_def entry_def soft_value_def)
  next
    case 5
    then show ?thesis using assms(3) sz by (simp add: state_dict_def entry_def soft_value_def)
  next
    case 6
    then show ?thesis using assms(3) sz by (simp add: state_dict_def entry_def soft_value_def)
  qed
qed

text \<open>
  C4. For two estimators whose parameters have the same sizes, the tracking update
  succeeds and sets every element of every named parameter of the target estimator to
  \<open>tau * acting + (1 - tau) * target\<close>. With \<open>tau = 1\<close> the target's parameters become the acting
  estimator's; with \<open>tau = 0\<close> the target estimator is left as it was, also when the update
  is applied a second time.
\<close>

theorem target_tracker_soft_update:
  assumes "same_sizes (state_dict target_n) (state_dict policy_n)"
  shows "\<exists>t'. target_tracker tau policy_n target_n = Inr t' \<and>
     map fst (state_dict t') = map fst (state_dict target_n) \<and>
     (\<forall>key i. key \<in> fst ` set (state_dict target_n) \<longrightarrow>
        i < length (entry (state_dict target_n) key) \<longrightarrow>
          length (entry (state_dict t') key) = length (entry (state_dict target_n) key) \<and>
          entry (state_dict t') key ! i =
            tau * entry (state_dict policy_n) key ! i +
            (1 - tau) * entry (state_dict target_n) key ! i) \<and>
     (tau = 1 \<longrightarrow> state_dict t' = state_dict policy_n) \<and>
     (tau = 0 \<longrightarrow> t' = target_n \<and> target_tracker tau policy_n t' = Inr target_n)"
proof -
  note sz = same_sizes_fields[OF assms]
  let ?t' = "target_n
        \<lparr> layer1 := (layer1 target_n)
            \<lparr> weight := map2 (soft_value tau) (weight (layer1 policy_n)) (weight (layer1 target_n)),
              bias := map2 (soft_value tau) (bias (layer1 policy_n)) (bias (layer1 target_n)) \<rparr>,
          layer2 := (layer2 target_n)
            \<lparr> weight := map2 (soft_value tau) (weight (layer2 policy_n)) (weight (layer2 target_n)),
              bias := map2 (soft_value tau) (bias (layer2 policy_n)) (bias (layer2 target_n)) \<rparr>,
          layer3 := (layer3 target_n)
            \<lparr> weight := map2 (soft_value tau) (weight (layer3 policy_n)) (weight (layer3 target_n)),
              bias := map2 (soft_value tau) (bias (layer3 policy_n)) (bias (layer3 target_n)) \<rparr> \<rparr>"
  have res: "target_tracker tau policy_n target_n = Inr ?t'"
    using assms by (rule target_tracker_result)
  have sd: "state_dict ?t' =
         [(''layer1.weight'', map2 (soft_value tau) (weight (layer1 policy_n)) (weight (layer1 target_n))),
          (''layer1.bias'', map2 (soft_value tau) (bias (layer1 policy_n)) (bias (layer1 target_n))),
          (''layer2.weight'', map2 (soft_value tau) (weight (layer2 policy_n)) (weight (layer2 target_n))),
          (''layer2.bias'', map2 (soft_value tau) (bias (layer2 policy_n)) (bias (layer2 target_n))),
          (''layer3.weight'', map2 (soft_value tau) (weight (layer3 policy_n)) (weight (layer3 target_n))),
          (''layer3.bias'', map2 (soft_value tau) (bias (layer3 policy_n)) (bias (layer3 target_n)))]"
    by (simp add: state_dict_def)
  have keys: "map fst (state_dict ?t') = map fst (state_dict target_n)"
    unfolding sd by (simp add: state_dict_def)
  have elems: "\<forall>key i. key \<in> fst ` set (state_dict target_n) \<longrightarrow>
        i < length (entry (state_dict target_n) key) \<longrightarrow>
          length (entry (state_dict ?t') key) = length (entry (state_dict target_n) key) \<and>
          entry (state_dict ?t') key ! i =
            tau * entry (state_dict policy_n) key ! i +
            (1 - tau) * entry (state_dict target_n) key ! i"
    unfolding sd by (intro allI impI soft_update_elements[OF assms])
  have one: "tau = 1 \<longrightarrow> state_dict ?t' = state_dict policy_n"
    unfolding sd using sz by (simp add: state_dict_def map2_soft_value_one)
  have zero: "?t' = target_n" if "tau = 0"
    using that sz by (simp add: map2_soft_value_zero)
  have twice: "tau = 0 \<longrightarrow> ?t' = target_n \<and> target_tracker tau policy_n ?t' = Inr target_n"
  proof
    assume t0: "tau = 0"
    have "target_tracker tau policy_n ?t' = Inr target_n"
      unfolding zero[OF t0] using res zero[OF t0] by simp
    then show "?t' = target_n \<and> target_tracker tau policy_n ?t' = Inr target_n"
      using zero[OF t0] by (intro conjI)
  qed
  show ?thesis
    by (rule exI[of _ ?t']) (intro conjI res keys elems one twice)
qed

theorem target_tracker_soft_update_witness:
  "same_sizes (state_dict (small_net 2)) (state_dict (small_net 1)) \<and>
   (\<exists>t'. target_tracker 1 (small_net 1) (small_net 2) = Inr t' \<and>
         state_dict t' = state_dict (small_net 1)) \<and>
   target_tracker 0 (small_net 1) (small_net 2) = Inr (small_net 2) \<and>
   (\<exists>t'. target_tracker (1 / 2) (small_net 1) (small_net 2) = Inr t' \<and>
         entry (state_dict t') ''layer1.weight'' ! 0 = 3 / 2)"
proof -
  have h: "same_sizes (state_dict (small_net 2)) (state_dict (small_net 1))"
    by (simp add: same_sizes_def state_dict_def small_net_def unit_layer_def)
  have one: "\<exists>t'. target_tracker 1 (small_net 1) (small_net 2) = Inr t' \<and>
         state_dict t' = state_dict (small_net 1)"
  proof -
    from target_tracker_soft_update[OF h, of 1]
    obtain t' where t': "target_tracker 1 (small_net 1) (small_net 2) = Inr t' \<and>
       map fst (state_dict t') = map fst (state_dict (small_net 2)) \<and>
       (\<forall>key i. key \<in> fst ` set (state_dict (small_net 2)) \<longrightarrow>
          i < length (entry (state_dict (small_net 2)) key) \<longrightarrow>
            length (entry (state_dict t') key) = length (entry (state_dict (small_net 2)) key) \<and>
            entry (state_dict t') key ! i =
              1 * entry (state_dict (small_net 1)) key ! i +
              (1 - 1) * entry (state_dict (small_net 2)) key ! i) \<and>
       ((1::real) = 1 \<longrightarrow> state_dict t' = state_dict (small_net 1)) \<and>
       ((1::real) = 0 \<longrightarrow> t' = small_net 2 \<and> target_tracker 1 (small_net 1) t' = Inr (small_net 2))" ..
    have a: "target_tracker 1 (small_net 1) (small_net 2) = Inr t'"
      using t' by (rule conjunct1)
    have b: "state_dict t' = state_dict (small_net 1)"
      using t'[THEN conjunct2, THEN conjunct2, THEN conjunct2, THEN conjunct1] by simp
    show ?thesis using a b by (intro exI[of _ t'] conjI)
  qed
  have zero: "target_tracker 0 (small_net 1) (small_net 2) = Inr (small_net 2)"
  proof -
    from target_tracker_soft_update[OF h, of 0]
    obtain t' where t': "target_tracker 0 (small_net 1) (small_net 2) = Inr t' \<and>
       map fst (state_dict t') = map fst (state_dict (small_net 2)) \<and>
       (\<forall>key i. key \<in> fst ` set (state_dict (small_net 2)) \<longrightarrow>
          i < length (entry (state_dict (small_net 2)) key) \<longrightarrow>
            length (entry (state_dict t') key) = length (entry (state_dict (small_net 2)) key) \<and>
            entry (state_dict t') key ! i =
              0 * entry (state_dict (small_net 1)) key ! i +
              (1 - 0) * entry (state_dict (small_net 2)) key ! i) \<and>
       ((0::real) = 1 \<longrightarrow> state_dict t' = state_dict (small_net 1)) \<and>
       ((0::real) = 0 \<longrightarrow> t' = small_net 2 \<and> target_tracker 0 (small_net 1) t' = Inr (small_net 2))" ..
    have "t' = small_net 2"
      using t'[THEN conjunct2, THEN conjunct2, THEN conjunct2, THEN conjunct2] by simp
    then show ?thesis using t'[THEN conjunct1] by simp
  qed
  have half: "\<exists>t'. target_tracker (1 / 2) (small_net 1) (small_net 2) = Inr t' \<and>
         entry (state_dict t') ''layer1.weight'' ! 0 = 3 / 2"
  proof -
    from target_tracker_soft_update[OF h, of "1 / 2"]
    obtain t' where t': "target_tracker (1 / 2) (small_net 1) (small_net 2) = Inr t' \<and>
       map fst (state_dict t') = map fst (state_dict (small_net 2)) \<and>
       (\<forall>key i. key \<in> fst ` set (state_dict (small_net 2)) \<longrightarrow>
          i < length (entry (state_dict (small_net 2)) key) \<longrightarrow>
            length (entry (state_dict t') key) = length (entry (state_dict (small_net 2)) key) \<and>
            entry (state_dict t') key ! i =
              1 / 2 * entry (state_dict (small_net 1)) key ! i +
              (1 - 1 / 2) * entry (state_dict (small_net 2)) key ! i) \<and>
       ((1 / 2 ::real) = 1 \<longrightarrow> state_dict t' = state_dict (small_net 1)) \<and>
       ((1 / 2 ::real) = 0 \<longrightarrow> t' = small_net 2 \<and>
          target_tracker (1 / 2) (small_net 1) t' = Inr (small_net 2))" ..
    have k: "''layer1.weight'' \<in> fst ` set (state_dict (small_net 2))"
      by (simp add: state_dict_def)
    have i: "0 < length (entry (state_dict (small_net 2)) ''layer1.weight'')"
      by (simp add: state_dict_def entry_def small_net_def unit_layer_def)
    have "entry (state_dict t') ''layer1.weight'' ! 0 =
        1 / 2 * entry (state_dict (small_net 1)) ''layer1.weight'' ! 0 +
        (1 - 1 / 2) * entry (state_dict (small_net 2)) ''layer1.weight'' ! 0"
      using t'[THEN conjunct2, THEN conjunct2, THEN conjunct1, rule_format, OF k i]
      by (rule conjunct2)
    then have "entry (state_dict t') ''layer1.weight'' ! 0 = 3 / 2"
      by (simp add: state_dict_def entry_def small_net_def unit_layer_def)
    then show ?thesis using t'[THEN conjunct1] by (intro exI[of _ t'] conjI)
  qed
  show ?thesis
    by (intro conjI h one zero half)
qed

section \<open>Properties of the exploration policy\<close>

lemma exp_decay_tendsto:
  fixes d :: real
  assumes "0 < d"
  shows "(\<lambda>n. exp (- 1 * real_of_int (int n) / d)) \<longlonglongrightarrow> 0"
proof -
  have c: "((\<lambda>n::nat. - 1 / d) \<longlongrightarrow> - 1 / d) sequentially" by (rule tendsto_const)
  have neg: "- 1 / d < 0" using assms by simp
  have "LIM n sequentially. (- 1 / d) * real n :> at_bot"
    using filterlim_tendsto_neg_mult_at_bot[OF c neg filterlim_real_sequentially] .
  then have "LIM n sequentially. - 1 * real_of_int (int n) / d :> at_bot"
    by (simp add: field_simps)
  then show ?thesis by (rule filterlim_compose[OF exp_at_bot])
qed

lemma eps_threshold_limit:
  assumes "0 < eps_decay self"
  shows "(\<lambda>n. eps_end self + (eps_start self - eps_end self) *
            exp (- 1 * real_of_int (int n) / eps_decay self)) \<longlonglongrightarrow> eps_end self"
proof -
  have "(\<lambda>n. eps_end self + (eps_start self - eps_end self) *
            exp (- 1 * real_of_int (int n) / eps_decay self))
        \<longlonglongrightarrow> eps_end self + (eps_start self - eps_end self) * 0"
    by (intro tendsto_intros exp_decay_tendsto assms)
  then show ?thesis by simp
qed

lemma eps_threshold_antimono:
  fixes m n :: int
  assumes "0 < d" "e \<le> s" "m \<le> n"
  shows "e + (s - e) * exp (- 1 * real_of_int n / d) \<le> e + (s - e) * exp (- 1 * real_of_int m / d)"
proof -
  have "- 1 * real_of_int n / d \<le> - 1 * real_of_int m / d"
    using assms by (simp add: divide_right_mono)
  then have "exp (- 1 * real_of_int n / d) \<le> exp (- 1 * real_of_int m / d)" by simp
  then show ?thesis using assms(2) by (simp add: mult_left_mono)
qed

lemma eps_threshold_value:
  assumes "0 < eps_decay self" "0 \<le> steps_done self"
  shows "eps_threshold self =
     Inr (eps_end self + (eps_start self - eps_end self) *
            exp (- 1 * real_of_int (steps_done self) / eps_decay self))"
proof -
  have "- 1 * real_of_int (steps_done self) / eps_decay self \<le> 0"
    using assms by (simp add: divide_nonneg_pos)
  moreover have "0 < exp_overflow_bound" by (simp add: exp_overflow_bound_def)
  ultimately have "\<not> exp_overflow_bound < - 1 * real_of_int (steps_done self) / eps_decay self"
    by linarith
  then show ?thesis using assms(1) by (simp add: eps_threshold_def math_exp_def)
qed

lemma select_action_policy:
  "snd (select_action self u raw st net) =
     (case eps_threshold self of
        Inl e \<Rightarrow> self
      | Inr v \<Rightarrow> self \<lparr> steps_done := steps_done self + 1 \<rparr>)"
  by (simp add: select_action_def Let_def split: sum.splits)

lemma select_action_counts:
  assumes "0 < eps_decay self" "0 \<le> steps_done self"
  shows "snd (select_action self u raw st net) = self \<lparr> steps_done := steps_done self + 1 \<rparr>"
  by (simp add: select_action_policy eps_threshold_value[OF assms])

lemma optimize_model_policy: "policy (snd (optimize_model S w batch_size gamma rnd)) = policy w"
  by (simp add: optimize_model_def sample_def split: sum.splits prod.splits)

lemma dqn_step_policy:
  "policy (snd (dqn_step E S batch_size gamma tau w st d)) =
   snd (select_action (policy w) (uniform d) (raw_action d) st (policy_net w))"
proof -
  obtain r pol where sa: "select_action (policy w) (uniform d) (raw_action d) st (policy_net w) = (r, pol)"
    by (cases "select_action (policy w) (uniform d) (raw_action d) st (policy_net w)")
  show ?thesis
  proof (cases r)
    case (Inl e)
    then show ?thesis using sa by (simp add: dqn_step_def)
  next
    case (Inr a)
    obtain env' ob rw dn where st: "step E (env w) a = (env', ob, rw, dn)"
      by (cases "step E (env w) a") auto
    let ?w1 = "w \<lparr> policy := pol, env := env',
                   replay_memory := push (replay_memory w)
                      \<lparr> state = st, action = a, next_state = (if dn then None else Some ob), reward = rw \<rparr> \<rparr>"
    obtain r2 w2 where om: "optimize_model S ?w1 batch_size gamma (raw_sample d) = (r2, w2)"
      by (cases "optimize_model S ?w1 batch_size gamma (raw_sample d)")
    have "policy w2 = pol" using optimize_model_policy[of S ?w1 batch_size gamma "raw_sample d"] om by simp
    then show ?thesis using sa Inr st om
      by (simp add: dqn_step_def Let_def split: option.splits sum.splits)
  qed
qed

lemma dqn_step_steps_done:
  "steps_done (policy (snd (dqn_step E S batch_size gamma tau w st d))) =
     (case eps_threshold (policy w) of
        Inl e \<Rightarrow> steps_done (policy w)
      | Inr v \<Rightarrow> steps_done (policy w) + 1)"
  by (simp add: dqn_step_policy select_action_policy split: sum.splits)

lemma episode_steps_done:
  "steps_done (policy w) \<le> steps_done (policy (fst (snd (episode E S batch_size gamma tau w st ds))))"
proof (induction ds arbitrary: w st)
  case Nil
  then show ?case by simp
next
  case (Cons d ds)
  obtain r w' where ds: "dqn_step E S batch_size gamma tau w st d = (r, w')"
    by (cases "dqn_step E S batch_size gamma tau w st d")
  have le: "steps_done (policy w) \<le> steps_done (policy w')"
    using dqn_step_steps_done[of E S batch_size gamma tau w st d] ds by (simp split: sum.splits)
  show ?case
  proof (cases r)
    case (Inl e)
    then show ?thesis using ds le by simp
  next
    case (Inr nxt)
    show ?thesis
    proof (cases nxt)
      case None
      then show ?thesis using ds Inr le by simp
    next
      case (Some st')
      then show ?thesis using ds Inr le Cons.IH[of w' st'] by simp
    qed
  qed
qed

lemma episodes_loop_steps_done:
  "steps_done (policy w) \<le> steps_done (policy (snd (episodes_loop E S batch_size gamma tau n w ds)))"
proof (induction n arbitrary: w ds)
  case 0
  then show ?case by simp
next
  case (Suc n)
  obtain env' st where rs: "reset E (env w) = (env', st)" by (cases "reset E (env w)")
  obtain out w' ds' where ep: "episode E S batch_size gamma tau (w \<lparr> env := env' \<rparr>) st ds = (out, w', ds')"
    by (cases "episode E S batch_size gamma tau (w \<lparr> env := env' \<rparr>) st ds") auto
  have le: "steps_done (policy w) \<le> steps_done (policy w')"
    using episode_steps_done[of "w \<lparr> env := env' \<rparr>" E S batch_size gamma tau st ds] ep by simp
  show ?case
  proof (cases out)
    case Finished
    then show ?thesis using rs ep le Suc.IH[of w' ds'] by simp
  next
    case (Raised e)
    then show ?thesis using rs ep le by simp
  next
    case Cut
    then show ?thesis using rs ep le by simp
  qed
qed

text \<open>
  C5, as amended. With a positive \<open>eps_decay\<close> and a counter that is not negative the
  threshold is \<open>eps_end + (eps_start - eps_end) * exp (- steps_done / eps_decay)\<close>. As a
  function of the counter \<open>0, 1, 2, ...\<close> it is \<open>eps_start\<close> at \<open>0\<close>, converges to \<open>eps_end\<close>, and
  for \<open>eps_start > eps_end\<close> is non-increasing.
\<close>

theorem eps_threshold_schedule:
  assumes "0 < eps_decay self"
  shows "(0 \<le> steps_done self \<longrightarrow>
      eps_threshold self =
        Inr (eps_end self + (eps_start self - eps_end self) *
               exp (- real_of_int (steps_done self) / eps_decay self))) \<and>
   (\<exists>f. (\<forall>n. eps_threshold (self \<lparr> steps_done := int n \<rparr>) = Inr (f n)) \<and>
        (\<forall>n. f n = eps_end self + (eps_start self - eps_end self) *
                      exp (- real n / eps_decay self)) \<and>
        f 0 = eps_start self \<and>
        (eps_end self < eps_start self \<longrightarrow> (\<forall>m n. m \<le> n \<longrightarrow> f n \<le> f m)) \<and>
        f \<longlonglongrightarrow> eps_end self)"
proof (intro conjI impI)
  assume "0 \<le> steps_done self"
  then show "eps_threshold self =
        Inr (eps_end self + (eps_start self - eps_end self) *
               exp (- real_of_int (steps_done self) / eps_decay self))"
    using eps_threshold_value[OF assms] by simp
next
  let ?f = "\<lambda>n::nat. eps_end self + (eps_start self - eps_end self) *
               exp (- 1 * real_of_int (int n) / eps_decay self)"
  have a: "\<forall>n. eps_threshold (self \<lparr> steps_done := int n \<rparr>) = Inr (?f n)"
  proof
    fix n :: nat
    show "eps_threshold (self \<lparr> steps_done := int n \<rparr>) = Inr (?f n)"
      using eps_threshold_value[of "self \<lparr> steps_done := int n \<rparr>"] assms by simp
  qed
  have b: "\<forall>n. ?f n = eps_end self + (eps_start self - eps_end self) *
                      exp (- real n / eps_decay self)"
    by simp
  have c: "?f 0 = eps_start self" by simp
  have d: "eps_end self < eps_start self \<longrightarrow> (\<forall>m n. m \<le> n \<longrightarrow> ?f n \<le> ?f m)"
  proof (intro impI allI)
    fix m n :: nat
    assume "eps_end self < eps_start self" "m \<le> n"
    then show "?f n \<le> ?f m"
      using eps_threshold_antimono[OF assms, of "eps_end self" "eps_start self" "int m" "int n"]
      by simp
  qed
  have e: "?f \<longlonglongrightarrow> eps_end self"
    using assms by (rule eps_threshold_limit)
  show "\<exists>f. (\<forall>n. eps_threshold (self \<lparr> steps_done := int n \<rparr>) = Inr (f n)) \<and>
        (\<forall>n. f n = eps_end self + (eps_start self - eps_end self) *
                      exp (- real n / eps_decay self)) \<and>
        f 0 = eps_start self \<and>
        (eps_end self < eps_start self \<longrightarrow> (\<forall>m n. m \<le> n \<longrightarrow> f n \<le> f m)) \<and>
        f \<longlonglongrightarrow> eps_end self"
    by (rule exI[of _ ?f]) (intro conjI a b c d e)
qed

theorem eps_threshold_schedule_witness:
  "0 < eps_decay (EpsilonGreedyPolicy_init (1 / 20) (9 / 10) 1000 2) \<and>
   0 \<le> steps_done (EpsilonGreedyPolicy_init (1 / 20) (9 / 10) 1000 2) \<and>
   eps_end (EpsilonGreedyPolicy_init (1 / 20) (9 / 10) 1000 2)
     < eps_start (EpsilonGreedyPolicy_init (1 / 20) (9 / 10) 1000 2) \<and>
   eps_threshold (EpsilonGreedyPolicy_init (1 / 20) (9 / 10) 1000 2) = Inr (9 / 10) \<and>
   (\<exists>f. eps_threshold ((EpsilonGreedyPolicy_init (1 / 20) (9 / 10) 1000 2) \<lparr> steps_done := int 0 \<rparr>) = Inr (f 0) \<and>
        eps_threshold ((EpsilonGreedyPolicy_init (1 / 20) (9 / 10) 1000 2) \<lparr> steps_done := int 1 \<rparr>) = Inr (f 1) \<and>
        f 0 = 9 / 10 \<and> f 1 \<le> f 0 \<and> f \<longlonglongrightarrow> 1 / 20)"
proof -
  let ?p = "EpsilonGreedyPolicy_init (1 / 20) (9 / 10) 1000 2"
  have h1: "0 < eps_decay ?p" and h2: "0 \<le> steps_done ?p" and h3: "eps_end ?p < eps_start ?p"
    by (simp_all add: EpsilonGreedyPolicy_init_def)
  have e: "eps_end ?p = 1 / 20" "steps_done ?p = 0" "eps_start ?p = 9 / 10"
    by (simp_all add: EpsilonGreedyPolicy_init_def)
  note sch = eps_threshold_schedule[OF h1]
  have "eps_threshold ?p = Inr (eps_end ?p + (eps_start ?p - eps_end ?p) *
               exp (- real_of_int (steps_done ?p) / eps_decay ?p))"
    using sch[THEN conjunct1, rule_format, OF h2] .
  then have a: "eps_threshold ?p = Inr (9 / 10)"
    by (simp add: e)
  from sch[THEN conjunct2] obtain f where f:
    "(\<forall>n. eps_threshold (?p \<lparr> steps_done := int n \<rparr>) = Inr (f n)) \<and>
     (\<forall>n. f n = eps_end ?p + (eps_start ?p - eps_end ?p) * exp (- real n / eps_decay ?p)) \<and>
     f 0 = eps_start ?p \<and>
     (eps_end ?p < eps_start ?p \<longrightarrow> (\<forall>m n. m \<le> n \<longrightarrow> f n \<le> f m)) \<and>
     f \<longlonglongrightarrow> eps_end ?p" ..
  have f0: "eps_threshold (?p \<lparr> steps_done := int 0 \<rparr>) = Inr (f 0)"
    and f1: "eps_threshold (?p \<lparr> steps_done := int 1 \<rparr>) = Inr (f 1)"
    using f[THEN conjunct1] by blast+
  have start: "f 0 = 9 / 10"
    using f[THEN conjunct2, THEN conjunct2, THEN conjunct1] by (simp only: e)
  have mono: "f 1 \<le> f 0"
    using f[THEN conjunct2, THEN conjunct2, THEN conjunct2, THEN conjunct1, rule_format, OF h3, of 0 1]
    by simp
  have lim: "f \<longlonglongrightarrow> 1 / 20"
    using f[THEN conjunct2, THEN conjunct2, THEN conjunct2, THEN conjunct2] by (simp only: e)
  show ?thesis
    by (intro conjI h1 h2 h3 a exI[of _ f] f0 f1 start mono lim)
qed

text \<open>
  The claim C5 as written puts no condition on \<open>eps_decay\<close>. With \<open>eps_decay = - 1\<close>,
  \<open>eps_start = 1\<close> and \<open>eps_end = 0\<close> the threshold grows from \<open>1\<close> at step \<open>0\<close> to \<open>exp 1\<close> at
  step \<open>1\<close>, and at step \<open>1000\<close> no threshold is computed: \<^verbatim>\<open>math.exp\<close> raises. With
  \<open>eps_decay = 0\<close> the division raises.
\<close>

theorem eps_threshold_not_monotone_for_negative_decay:
  "eps_end \<lparr> steps_done = 0, eps_end = 0, eps_start = 1, eps_decay = - 1, n_actions = 2 \<rparr>
     < eps_start \<lparr> steps_done = 0, eps_end = 0, eps_start = 1, eps_decay = - 1, n_actions = 2 \<rparr> \<and>
   eps_threshold \<lparr> steps_done = 0, eps_end = 0, eps_start = 1, eps_decay = - 1, n_actions = 2 \<rparr> = Inr 1 \<and>
   eps_threshold \<lparr> steps_done = 1, eps_end = 0, eps_start = 1, eps_decay = - 1, n_actions = 2 \<rparr> = Inr (exp 1) \<and>
   (1 :: real) < exp 1 \<and>
   eps_threshold \<lparr> steps_done = 1000, eps_end = 0, eps_start = 1, eps_decay = - 1, n_actions = 2 \<rparr>
     = Inl OverflowError \<and>
   eps_threshold \<lparr> steps_done = 0, eps_end = 0, eps_start = 1, eps_decay = 0, n_actions = 2 \<rparr>
     = Inl ZeroDivisionError"
  by (simp add: eps_threshold_def math_exp_def exp_overflow_bound_def)

text \<open>
  With a positive \<open>eps_decay\<close> the counter counts the iterations of the inner loop exactly:
  after an episode it has grown by the number of draws the episode consumed. A whole run
  starts it at zero.
\<close>

lemma dqn_step_eps_decay:
  "eps_decay (policy (snd (dqn_step E S batch_size gamma tau w st d))) = eps_decay (policy w)"
  by (simp add: dqn_step_policy select_action_policy split: sum.splits)

lemma episode_counts_iterations:
  assumes "0 < eps_decay (policy w)" "0 \<le> steps_done (policy w)"
    and "episode E S batch_size gamma tau w st ds = (out, w', ds')"
  shows "steps_done (policy w') = steps_done (policy w) + int (length ds) - int (length ds') \<and>
         eps_decay (policy w') = eps_decay (policy w)"
  using assms
proof (induction ds arbitrary: w st)
  case Nil
  then show ?case by simp
next
  case (Cons d ds)
  obtain r w1 where ds: "dqn_step E S batch_size gamma tau w st d = (r, w1)"
    by (cases "dqn_step E S batch_size gamma tau w st d")
  have inc: "steps_done (policy w1) = steps_done (policy w) + 1"
    using dqn_step_steps_done[of E S batch_size gamma tau w st d] ds
      eps_threshold_value[OF Cons.prems(1) Cons.prems(2)] by simp
  have dec: "eps_decay (policy w1) = eps_decay (policy w)"
    using dqn_step_eps_decay[of E S batch_size gamma tau w st d] ds by simp
  show ?case
  proof (cases r)
    case (Inl e)
    then show ?thesis using ds inc dec Cons.prems(3) by auto
  next
    case (Inr nxt)
    show ?thesis
    proof (cases nxt)
      case None
      then show ?thesis using ds Inr inc dec Cons.prems(3) by auto
    next
      case (Some st')
      then have "episode E S batch_size gamma tau w1 st' ds = (out, w', ds')"
        using ds Inr Cons.prems(3) by simp
      moreover have "0 < eps_decay (policy w1)" "0 \<le> steps_done (policy w1)"
        using dec inc Cons.prems(1) Cons.prems(2) by simp_all
      ultimately have "steps_done (policy w') = steps_done (policy w1) + int (length ds) - int (length ds') \<and>
         eps_decay (policy w') = eps_decay (policy w1)"
        using Cons.IH[of w1 st'] by simp
      then show ?thesis using inc dec by simp
    qed
  qed
qed

lemma dqn_steps_done_nonneg:
  assumes "dqn E S e0 init_policy init_target ds e_start e_end e_decay episodes gamma N tau batch_size
             = (out, Some w)"
  shows "0 \<le> steps_done (policy w)"
proof -
  from assms obtain w0 where
    w0: "dqn_setup E S e0 init_policy init_target e_start e_end e_decay N = Inr w0"
    and run: "episodes_loop E S batch_size gamma tau (nat episodes) w0 ds = (out, w)"
    by (auto simp: dqn_def split: sum.splits prod.splits)
  have "steps_done (policy w0) = 0"
    using w0 by (auto simp: dqn_setup_def Let_def EpsilonGreedyPolicy_init_def split: sum.splits)
  then show ?thesis
    using episodes_loop_steps_done[of w0 E S batch_size gamma tau "nat episodes" ds] run by simp
qed

text \<open>
  C9, as amended. A call of \<open>select_action\<close> on a policy with a positive \<open>eps_decay\<close> and a
  counter that is not negative leaves the policy with \<open>steps_done\<close> increased by exactly one
  and nothing else changed, whichever branch is taken and also when the branch raises. One
  iteration of the training loop changes the policy only through that call: the optimizer
  step leaves it alone. Over an episode and over a run of episodes the counter never
  decreases.
\<close>

theorem steps_done_counts_select_action_calls:
  "(0 < eps_decay self \<longrightarrow> 0 \<le> steps_done self \<longrightarrow>
      snd (select_action self u raw st net) = self \<lparr> steps_done := steps_done self + 1 \<rparr>) \<and>
   policy (snd (dqn_step E S batch_size gamma tau w st d)) =
     snd (select_action (policy w) (uniform d) (raw_action d) st (policy_net w)) \<and>
   policy (snd (optimize_model S w batch_size gamma rnd)) = policy w \<and>
   steps_done (policy w) \<le>
     steps_done (policy (fst (snd (episode E S batch_size gamma tau w st ds)))) \<and>
   steps_done (policy w) \<le>
     steps_done (policy (snd (episodes_loop E S batch_size gamma tau n w ds)))"
  by (simp add: select_action_counts dqn_step_policy optimize_model_policy
      episode_steps_done episodes_loop_steps_done)

theorem steps_done_counts_select_action_calls_witness:
  "0 < eps_decay (EpsilonGreedyPolicy_init (1 / 20) (9 / 10) 1000 1) \<and>
   0 \<le> steps_done (EpsilonGreedyPolicy_init (1 / 20) (9 / 10) 1000 1) \<and>
   steps_done (snd (select_action (EpsilonGreedyPolicy_init (1 / 20) (9 / 10) 1000 1)
                      (1 / 2) 0 [1] (small_net 1))) = 1 \<and>
   steps_done (snd (select_action (EpsilonGreedyPolicy_init (1 / 20) (9 / 10) 1000 1)
                      (19 / 20) 0 [1] (small_net 1))) = 1"
proof -
  let ?p = "EpsilonGreedyPolicy_init (1 / 20) (9 / 10) 1000 1"
  have h1: "0 < eps_decay ?p" and h2: "0 \<le> steps_done ?p"
    by (simp_all add: EpsilonGreedyPolicy_init_def)
  have s: "steps_done ?p = 0" by (simp add: EpsilonGreedyPolicy_init_def)
  have "snd (select_action ?p (1 / 2) 0 [1] (small_net 1)) = ?p \<lparr> steps_done := steps_done ?p + 1 \<rparr>"
    using h1 h2 steps_done_counts_select_action_calls[of ?p "1 / 2" 0 "[1]" "small_net 1"] by blast
  moreover have "snd (select_action ?p (19 / 20) 0 [1] (small_net 1)) = ?p \<lparr> steps_done := steps_done ?p + 1 \<rparr>"
    using h1 h2 steps_done_counts_select_action_calls[of ?p "19 / 20" 0 "[1]" "small_net 1"] by blast
  ultimately show ?thesis using h1 h2 s by simp
qed

text \<open>
  The claim C9 as written covers every call. With \<open>eps_decay = 0\<close> the division at line 122
  raises, and with \<open>eps_decay = - 1\<close> and the counter at \<open>1000\<close> \<^verbatim>\<open>math.exp\<close> raises on the same
  line, before line 124 is reached: the call ends in an exception and the counter is what
  it was.
\<close>

theorem select_action_raising_threshold_does_not_count:
  "select_action \<lparr> steps_done = 7, eps_end = 1 / 20, eps_start = 9 / 10, eps_decay = 0, n_actions = 1 \<rparr>
      (1 / 2) 0 [1] (small_net 1)
   = (Inl ZeroDivisionError,
      \<lparr> steps_done = 7, eps_end = 1 / 20, eps_start = 9 / 10, eps_decay = 0, n_actions = 1 \<rparr>) \<and>
   select_action \<lparr> steps_done = 1000, eps_end = 1 / 20, eps_start = 9 / 10, eps_decay = - 1, n_actions = 1 \<rparr>
      (1 / 2) 0 [1] (small_net 1)
   = (Inl OverflowError,
      \<lparr> steps_done = 1000, eps_end = 1 / 20, eps_start = 9 / 10, eps_decay = - 1, n_actions = 1 \<rparr>)"
  by (simp add: select_action_def eps_threshold_def math_exp_def exp_overflow_bound_def)

section \<open>Properties of the setup\<close>

lemma Linear_init_ok:
  assumes "0 \<le> a" "0 \<le> b"
  shows "\<exists>l. Linear_init f a b = Inr l \<and> in_features l = nat a \<and> out_features l = nat b \<and>
             length (weight l) = nat b * nat a \<and> length (bias l) = nat b"
  using assms by (simp add: Linear_init_def)

lemma DQN_init_ok:
  assumes "0 \<le> n_obs" "0 \<le> n_act"
  shows "\<exists>net. DQN_init S init n_obs n_act lr = Inr net \<and>
      in_features (layer1 net) = nat n_obs \<and> out_features (layer1 net) = 128 \<and>
      in_features (layer2 net) = 128 \<and> out_features (layer2 net) = 128 \<and>
      in_features (layer3 net) = 128 \<and> out_features (layer3 net) = nat n_act \<and>
      map (\<lambda>(k, v). (k, length v)) (state_dict net) =
        [(''layer1.weight'', 128 * nat n_obs), (''layer1.bias'', 128),
         (''layer2.weight'', 128 * 128), (''layer2.bias'', 128),
         (''layer3.weight'', nat n_act * 128), (''layer3.bias'', nat n_act)]"
proof -
  obtain l1 where l1: "Linear_init (init ''layer1'') n_obs 128 = Inr l1" "in_features l1 = nat n_obs"
     "out_features l1 = 128" "length (weight l1) = 128 * nat n_obs" "length (bias l1) = 128"
    using Linear_init_ok[of n_obs 128 "init ''layer1''"] assms by auto
  obtain l2 where l2: "Linear_init (init ''layer2'') 128 128 = Inr l2" "in_features l2 = 128"
     "out_features l2 = 128" "length (weight l2) = 128 * 128" "length (bias l2) = 128"
    using Linear_init_ok[of 128 128 "init ''layer2''"] by auto
  obtain l3 where l3: "Linear_init (init ''layer3'') 128 n_act = Inr l3" "in_features l3 = 128"
     "out_features l3 = nat n_act" "length (weight l3) = nat n_act * 128" "length (bias l3) = nat n_act"
    using Linear_init_ok[of 128 n_act "init ''layer3''"] assms by auto
  show ?thesis
    by (simp add: DQN_init_def l1 l2 l3 state_dict_def)
qed

lemma DQN_init_dims:
  assumes "0 \<le> n_obs" "0 \<le> n_act"
  shows "\<exists>net. DQN_init S init n_obs n_act lr = Inr net \<and>
      in_features (layer1 net) = nat n_obs \<and> out_features (layer3 net) = nat n_act \<and>
      map (\<lambda>(k, v). (k, length v)) (state_dict net) =
        [(''layer1.weight'', 128 * nat n_obs), (''layer1.bias'', 128),
         (''layer2.weight'', 128 * 128), (''layer2.bias'', 128),
         (''layer3.weight'', nat n_act * 128), (''layer3.bias'', nat n_act)]"
proof -
  from DQN_init_ok[OF assms, of S init lr] obtain net where net:
    "DQN_init S init n_obs n_act lr = Inr net \<and>
      in_features (layer1 net) = nat n_obs \<and> out_features (layer1 net) = 128 \<and>
      in_features (layer2 net) = 128 \<and> out_features (layer2 net) = 128 \<and>
      in_features (layer3 net) = 128 \<and> out_features (layer3 net) = nat n_act \<and>
      map (\<lambda>(k, v). (k, length v)) (state_dict net) =
        [(''layer1.weight'', 128 * nat n_obs), (''layer1.bias'', 128),
         (''layer2.weight'', 128 * 128), (''layer2.bias'', 128),
         (''layer3.weight'', nat n_act * 128), (''layer3.bias'', nat n_act)]" ..
  show ?thesis
    by (rule exI[of _ net]) (simp only: net simp_thms)
qed

lemma load_state_dict_same_sizes:
  assumes "map (\<lambda>(k, v). (k, length v)) (state_dict a) = map (\<lambda>(k, v). (k, length v)) (state_dict b)"
  shows "\<exists>a'. load_state_dict a (state_dict b) = Inr a' \<and> state_dict a' = state_dict b \<and>
      in_features (layer1 a') = in_features (layer1 a) \<and>
      out_features (layer3 a') = out_features (layer3 a)"
  using assms by (simp add: load_state_dict_def state_dict_def same_sizes_def entry_def)

text \<open>
  C6. For an environment with non-negative \<open>state_dims\<close> and \<open>action_dims\<close> (and a
  non-negative buffer capacity) the setup succeeds, and both estimators have input width
  \<open>action_dims\<close> and output width \<open>state_dims\<close>; the policy's action count is \<open>state_dims\<close>.
\<close>

theorem dqn_setup_reads_dims_swapped:
  assumes "0 \<le> state_dims E" "0 \<le> action_dims E" "0 \<le> N"
  shows "\<exists>w. dqn_setup E S e0 init_policy init_target e_start e_end e_decay N = Inr w \<and>
      in_features (layer1 (policy_net w)) = nat (action_dims E) \<and>
      out_features (layer3 (policy_net w)) = nat (state_dims E) \<and>
      in_features (layer1 (target_net w)) = nat (action_dims E) \<and>
      out_features (layer3 (target_net w)) = nat (state_dims E) \<and>
      n_actions (policy w) = state_dims E"
proof -
  from DQN_init_dims[OF assms(2) assms(1), of S init_policy "1 / 10000"]
  obtain p where pp: "DQN_init S init_policy (action_dims E) (state_dims E) (1 / 10000) = Inr p \<and>
      in_features (layer1 p) = nat (action_dims E) \<and> out_features (layer3 p) = nat (state_dims E) \<and>
      map (\<lambda>(k, v). (k, length v)) (state_dict p) =
        [(''layer1.weight'', 128 * nat (action_dims E)), (''layer1.bias'', 128),
         (''layer2.weight'', 128 * 128), (''layer2.bias'', 128),
         (''layer3.weight'', nat (state_dims E) * 128), (''layer3.bias'', nat (state_dims E))]" ..
  note p = pp[THEN conjunct1]
    and p_in = pp[THEN conjunct2, THEN conjunct1]
    and p_out = pp[THEN conjunct2, THEN conjunct2, THEN conjunct1]
    and p_sz = pp[THEN conjunct2, THEN conjunct2, THEN conjunct2]
  from DQN_init_dims[OF assms(2) assms(1), of S init_target "1 / 10000"]
  obtain t0 where tt: "DQN_init S init_target (action_dims E) (state_dims E) (1 / 10000) = Inr t0 \<and>
      in_features (layer1 t0) = nat (action_dims E) \<and> out_features (layer3 t0) = nat (state_dims E) \<and>
      map (\<lambda>(k, v). (k, length v)) (state_dict t0) =
        [(''layer1.weight'', 128 * nat (action_dims E)), (''layer1.bias'', 128),
         (''layer2.weight'', 128 * 128), (''layer2.bias'', 128),
         (''layer3.weight'', nat (state_dims E) * 128), (''layer3.bias'', nat (state_dims E))]" ..
  note t0 = tt[THEN conjunct1]
    and t0_in = tt[THEN conjunct2, THEN conjunct1]
    and t0_out = tt[THEN conjunct2, THEN conjunct2, THEN conjunct1]
    and t0_sz = tt[THEN conjunct2, THEN conjunct2, THEN conjunct2]
  have eq: "map (\<lambda>(k, v). (k, length v)) (state_dict t0) = map (\<lambda>(k, v). (k, length v)) (state_dict p)"
    by (simp only: p_sz t0_sz)
  from load_state_dict_same_sizes[OF eq]
  obtain t where lt: "load_state_dict t0 (state_dict p) = Inr t \<and> state_dict t = state_dict p \<and>
      in_features (layer1 t) = in_features (layer1 t0) \<and>
      out_features (layer3 t) = out_features (layer3 t0)" ..
  note t = lt[THEN conjunct1]
    and t_in = lt[THEN conjunct2, THEN conjunct2, THEN conjunct1]
    and t_out = lt[THEN conjunct2, THEN conjunct2, THEN conjunct2]
  have m: "ReplayMemory_init N = Inr \<lparr> maxlen = nat N, memory = [] \<rparr>"
    using assms(3) by (simp add: ReplayMemory_init_def)
  let ?w = "\<lparr> env = e0, policy_net = p, target_net = t,
            policy = EpsilonGreedyPolicy_init e_end e_start e_decay (state_dims E),
            replay_memory = \<lparr> maxlen = nat N, memory = [] \<rparr> \<rparr>"
  have built: "dqn_setup E S e0 init_policy init_target e_start e_end e_decay N = Inr ?w"
    by (simp add: dqn_setup_def Let_def p t0 t m)
  show ?thesis
    by (rule exI[of _ ?w])
      (simp add: built p_in p_out t_in t_out t0_in t0_out EpsilonGreedyPolicy_init_def)
qed

theorem dqn_setup_reads_dims_swapped_witness:
  "0 \<le> state_dims one_step_env \<and> 0 \<le> action_dims one_step_env \<and> (0 :: int) \<le> 100 \<and>
   (\<exists>w. dqn_setup one_step_env plain_descent () (\<lambda>k i. 0) (\<lambda>k i. 1) (9 / 10) (1 / 20) 1000 100 = Inr w \<and>
      in_features (layer1 (policy_net w)) = nat (action_dims one_step_env) \<and>
      out_features (layer3 (policy_net w)) = nat (state_dims one_step_env) \<and>
      in_features (layer1 (target_net w)) = nat (action_dims one_step_env) \<and>
      out_features (layer3 (target_net w)) = nat (state_dims one_step_env) \<and>
      n_actions (policy w) = state_dims one_step_env) \<and>
   nat (action_dims one_step_env) = 4 \<and> nat (state_dims one_step_env) = 2"
proof -
  have h: "0 \<le> state_dims one_step_env" "0 \<le> action_dims one_step_env" "(0 :: int) \<le> 100"
    by (simp_all add: one_step_env_def)
  have d: "nat (action_dims one_step_env) = 4" "nat (state_dims one_step_env) = 2"
    by (simp_all add: one_step_env_def)
  note w = dqn_setup_reads_dims_swapped[OF h, of plain_descent "()" "\<lambda>k i. 0" "\<lambda>k i. 1" "9 / 10" "1 / 20" 1000]
  show ?thesis
    by (intro conjI h d w)
qed

end
